theory Spec2Isabelle
  imports Complex_Main "HOL-Library.Word"
begin

section \<open>JavaScript strings\<close>

text \<open>
  A JavaScript string is modelled as an Isabelle \<open>string\<close>, one \<open>char\<close> per
  code unit. Case mapping is modelled on the ASCII letters; characters outside ASCII
  are passed through unchanged by \<open>toLowerCase\<close> in this model.
\<close>

text \<open>\<open>s.startsWith(p)\<close>.\<close>

fun startsWith :: "string \<Rightarrow> string \<Rightarrow> bool" where
  "startsWith s [] = True"
| "startsWith [] (p # ps) = False"
| "startsWith (c # cs) (p # ps) = (c = p \<and> startsWith cs ps)"

text \<open>
  \<open>s.lastIndexOf(c)\<close> for a one-character search string: the index of the last
  occurrence, or \<open>-1\<close>. The scan keeps the last index seen.
\<close>

fun lastIndexOf_scan :: "string \<Rightarrow> char \<Rightarrow> nat \<Rightarrow> int \<Rightarrow> int" where
  "lastIndexOf_scan [] c i found = found"
| "lastIndexOf_scan (x # xs) c i found =
     lastIndexOf_scan xs c (Suc i) (if x = c then int i else found)"

definition lastIndexOf :: "string \<Rightarrow> char \<Rightarrow> int" where
  "lastIndexOf s c = lastIndexOf_scan s c 0 (- 1)"

text \<open>
  \<open>s.slice(start)\<close>: a negative start counts from the end, and the start is clamped
  to the string.
\<close>

definition slice :: "string \<Rightarrow> int \<Rightarrow> string" where
  "slice s start =
     (let len = int (length s);
          from = (if start < 0 then max (len + start) 0 else min start len)
      in drop (nat from) s)"

text \<open>\<open>s.substring(start)\<close>: a negative start is taken as 0.\<close>

definition substring :: "string \<Rightarrow> int \<Rightarrow> string" where
  "substring s start = drop (nat (min (max start 0) (int (length s)))) s"

definition lowerChar :: "char \<Rightarrow> char" where
  "lowerChar c =
     (case map_of (zip ''ABCDEFGHIJKLMNOPQRSTUVWXYZ'' ''abcdefghijklmnopqrstuvwxyz'') c of
        Some l \<Rightarrow> l
      | None \<Rightarrow> c)"

definition toLowerCase :: "string \<Rightarrow> string" where
  "toLowerCase s = map lowerChar s"

section \<open>Mime types (class DocumentRenderer)\<close>

text \<open>
  \<open>mimeMap\<close> holds only the mime types that differ from \<open>image/${extension}\<close>.
\<close>

definition mimeMap :: "string \<rightharpoonup> string" where
  "mimeMap = map_of [(''svg'', ''image/svg+xml''), (''jpg'', ''image/jpeg'')]"

text \<open>
  \<open>getExtension\<close>: the file name is the text after the last \<open>/\<close>; the extension is
  the file name sliced at \<open>lastIndexOf('.') + 1 || fileName.length\<close>, lower-cased.
  The operator \<open>||\<close> takes its right operand when the left one is 0.
\<close>

definition getExtension :: "string \<Rightarrow> string" where
  "getExtension filePath =
     (let fileName = slice filePath (lastIndexOf filePath (CHR ''/'') + 1);
          dot = lastIndexOf fileName (CHR ''.'') + 1
      in toLowerCase (slice fileName (if dot \<noteq> 0 then dot else int (length fileName))))"

text \<open>
  \<open>guessMimeType\<close>: \<open>getExtension(filePath) || 'png'\<close>, then
  \<open>mimeMap.get(extension) || `image/${extension}`\<close>. An empty string and
  \<open>undefined\<close> are both falsy.
\<close>

definition guessMimeType :: "string \<Rightarrow> string" where
  "guessMimeType filePath =
     (let extension = (if getExtension filePath \<noteq> [] then getExtension filePath else ''png'')
      in case mimeMap extension of
           Some m \<Rightarrow> (if m \<noteq> [] then m else ''image/'' @ extension)
         | None \<Rightarrow> ''image/'' @ extension)"

definition isSvg :: "string \<Rightarrow> bool" where
  "isSvg mimeType = (mimeType = ''image/svg+xml'')"

subsection \<open>The mime-type rule as the specification words it\<close>

text \<open>
  The last \<open>/\<close>-delimited segment of a path, and the text after the last \<open>.\<close> of a
  segment, read off the end of the string.
\<close>

definition lastSegment :: "string \<Rightarrow> string" where
  "lastSegment p = rev (takeWhile (\<lambda>c. c \<noteq> CHR ''/'') (rev p))"

definition afterLastDot :: "string \<Rightarrow> string" where
  "afterLastDot seg = rev (takeWhile (\<lambda>c. c \<noteq> CHR ''.'') (rev seg))"

definition specExtension :: "string \<Rightarrow> string" where
  "specExtension p =
     (if CHR ''.'' \<in> set (lastSegment p) then toLowerCase (afterLastDot (lastSegment p)) else [])"

definition specMimeType :: "string \<Rightarrow> string" where
  "specMimeType p =
     (if specExtension p = [] then ''image/png''
      else if specExtension p = ''svg'' then ''image/svg+xml''
      else if specExtension p = ''jpg'' then ''image/jpeg''
      else ''image/'' @ specExtension p)"

section \<open>Global state and the entry points of a copy (class CopyDocument2MpPlugin)\<close>

text \<open>
  The three module-level variables: \<open>copyIsRunning\<close> guards against two copies at
  once, \<open>ppIsProcessing\<close> says that a block is being post-processed, and
  \<open>ppLastBlockDate\<close> is the time (milliseconds) at which the last block finished.
\<close>

record globals =
  copyIsRunning :: bool
  ppIsProcessing :: bool
  ppLastBlockDate :: int

text \<open>
  The two Markdown post-processors registered by \<open>onload\<close>. The first runs before all
  others on a block, the second after all others; the second stores \<open>Date.now()\<close>,
  which the event carries.
\<close>

datatype pp_event = BeforeAllPostProcessor | AfterAllPostProcessor int

fun postProcess :: "pp_event \<Rightarrow> globals \<Rightarrow> globals" where
  "postProcess BeforeAllPostProcessor g = g\<lparr>ppIsProcessing := True\<rparr>"
| "postProcess (AfterAllPostProcessor now) g = g\<lparr>ppLastBlockDate := now, ppIsProcessing := False\<rparr>"

text \<open>
  \<open>doCopy\<close> up to its first suspension point: the flag is raised and the post-processor
  state is reset, with \<open>Date.now()\<close> as the last block date. Its \<open>finally\<close> block
  lowers the flag.
\<close>

definition doCopy_start :: "int \<Rightarrow> globals \<Rightarrow> globals" where
  "doCopy_start now g = g\<lparr>copyIsRunning := True, ppLastBlockDate := now, ppIsProcessing := True\<rparr>"

definition doCopy_finally :: "globals \<Rightarrow> globals" where
  "doCopy_finally g = g\<lparr>copyIsRunning := False\<rparr>"

text \<open>The arguments of a call of \<open>doCopy\<close>.\<close>

record copy_request =
  markdown :: string
  path :: string
  name :: string
  isFullDocument :: bool

text \<open>
  The active Markdown view: its editor (with the current selection), its file (path
  and name) and its text.
\<close>

record markdown_view =
  editorSelection :: "string option"
  viewFile :: "(string \<times> string) option"
  viewData :: string

text \<open>
  \<open>copyFromView\<close>: no editor or no file is logged and nothing is copied; otherwise
  \<open>doCopy\<close> is called with the selection or the whole text.
\<close>

definition copyFromView :: "markdown_view \<Rightarrow> bool \<Rightarrow> copy_request option" where
  "copyFromView activeView onlySelected =
     (case editorSelection activeView of
        None \<Rightarrow> None
      | Some sel \<Rightarrow>
          (case viewFile activeView of
             None \<Rightarrow> None
           | Some (p, n) \<Rightarrow>
               Some \<lparr>markdown = (if onlySelected then sel else viewData activeView),
                     path = p, name = n, isFullDocument = \<not> onlySelected\<rparr>))"

text \<open>
  The \<open>checkCallback\<close> of the command \<open>smart-copy-to-mp\<close>. It answers whether the
  command is available; when it is and \<open>checking\<close> is false, it calls
  \<open>copyFromView\<close>. The result is the answer, the call of \<open>doCopy\<close> made (if any),
  and the globals once \<open>doCopy\<close> has reached its first suspension point. The answer
  of \<open>activeView.editor.somethingSelected()\<close> is an argument.
\<close>

definition smartCopyCheckCallback ::
  "int \<Rightarrow> markdown_view option \<Rightarrow> bool \<Rightarrow> bool \<Rightarrow> globals \<Rightarrow> bool \<times> copy_request option \<times> globals" where
  "smartCopyCheckCallback now activeView somethingSelected checking g =
     (if copyIsRunning g then (False, None, g)
      else case activeView of
        None \<Rightarrow> (False, None, g)
      | Some v \<Rightarrow>
          (if \<not> checking then
             (case copyFromView v somethingSelected of
                None \<Rightarrow> (True, None, g)
              | Some req \<Rightarrow> (True, Some req, doCopy_start now g))
           else (True, None, g)))"

text \<open>
  A file of the vault as the file menu hands it over: a \<open>TFile\<close> with path, name
  and extension, or a folder.
\<close>

datatype abstract_file = TFile string string string | TFolder string

text \<open>
  \<open>copyFromFile\<close>, called by the file-menu item: a folder or a file whose extension
  is not \<open>md\<close> is logged and nothing is copied; otherwise the file is read
  (\<open>cachedRead\<close> yields \<open>content\<close>) and \<open>doCopy\<close> is called. The function
  does not read \<open>copyIsRunning\<close>. \<open>now\<close> is the time at which \<open>doCopy\<close> starts.
\<close>

definition copyFromFile :: "int \<Rightarrow> abstract_file \<Rightarrow> string \<Rightarrow> globals \<Rightarrow> copy_request option \<times> globals" where
  "copyFromFile now file content g =
     (case file of
        TFolder p \<Rightarrow> (None, g)
      | TFile p n extension \<Rightarrow>
          (if toLowerCase extension \<noteq> ''md'' then (None, g)
           else (Some \<lparr>markdown = content, path = p, name = n, isFullDocument = True\<rparr>,
                 doCopy_start now g)))"

section \<open>Waiting for the renderer (DocumentRenderer.untilRendered)\<close>

definition optionRenderSettlingDelay :: int where
  "optionRenderSettlingDelay = 100"

text \<open>
  The polling loop. \<open>clock k\<close> is \<open>Date.now()\<close> when the loop condition is evaluated
  for the \<open>k\<close>-th time, and \<open>blocks k\<close> are the post-processor events that run during
  the \<open>k\<close>-th \<open>await delay(20)\<close>. The loop has no bound of its own, so the model
  takes fuel: \<open>None\<close> means that the loop is still waiting when the fuel is used up.
  A result \<open>Some (k, g)\<close> is an exit after \<open>k\<close> delays in all, with globals \<open>g\<close>.
\<close>

fun untilRendered ::
  "nat \<Rightarrow> (nat \<Rightarrow> int) \<Rightarrow> (nat \<Rightarrow> pp_event list) \<Rightarrow> nat \<Rightarrow> globals \<Rightarrow> (nat \<times> globals) option" where
  "untilRendered 0 clock blocks k g = None"
| "untilRendered (Suc fuel) clock blocks k g =
     (if ppIsProcessing g \<or> clock k - ppLastBlockDate g < optionRenderSettlingDelay then
        (if ppLastBlockDate g = 0 then Some (k, g)
         else untilRendered fuel clock blocks (Suc k) (fold postProcess (blocks k) g))
      else Some (k, g))"

text \<open>A renderer that registers no block at all, and a clock that advances by the
  polling interval of 20 ms from a start time.\<close>

definition noBlocks :: "nat \<Rightarrow> pp_event list" where
  "noBlocks k = []"

definition pollClock :: "int \<Rightarrow> nat \<Rightarrow> int" where
  "pollClock start k = start + 20 * int k"

definition idleGlobals :: globals where
  "idleGlobals = \<lparr>copyIsRunning = False, ppIsProcessing = False, ppLastBlockDate = 1700000000000\<rparr>"

section \<open>Promises\<close>

text \<open>
  What a JavaScript \<open>throw\<close> or a rejected promise carries.
\<close>

datatype js_error = Error string | TypeError string | URIError string | SecurityError string

fun message :: "js_error \<Rightarrow> string" where
  "message (Error m) = m"
| "message (TypeError m) = m"
| "message (URIError m) = m"
| "message (SecurityError m) = m"

text \<open>
  A promise is modelled by how it ends: \<open>None\<close> is a promise that stays pending for
  ever, \<open>Some (t, r)\<close> one that settles at time \<open>t\<close> (in milliseconds from the start
  of the batch it belongs to) as \<open>r\<close>.
\<close>

datatype 'a settled = Fulfilled 'a | Rejected js_error

type_synonym 'a promise = "(nat \<times> 'a settled) option"

fun rejection :: "'a promise \<Rightarrow> (nat \<times> js_error) option" where
  "rejection (Some (t, Rejected e)) = Some (t, e)"
| "rejection _ = None"

text \<open>The earliest rejection of a list, the first of the list among equal times.\<close>

fun firstRejection :: "'a promise list \<Rightarrow> (nat \<times> js_error) option" where
  "firstRejection [] = None"
| "firstRejection (p # ps) =
     (case rejection p of
        None \<Rightarrow> firstRejection ps
      | Some (t, e) \<Rightarrow>
          (case firstRejection ps of
             None \<Rightarrow> Some (t, e)
           | Some (t', e') \<Rightarrow> if t' < t then Some (t', e') else Some (t, e)))"

text \<open>
  When every promise of the list is fulfilled: the time the last one settles and the
  values in list order. \<open>None\<close> otherwise.
\<close>

fun allFulfilled :: "'a promise list \<Rightarrow> (nat \<times> 'a list) option" where
  "allFulfilled [] = Some (0, [])"
| "allFulfilled (Some (t, Fulfilled v) # ps) =
     (case allFulfilled ps of None \<Rightarrow> None | Some (t', vs) \<Rightarrow> Some (max t t', v # vs))"
| "allFulfilled (_ # ps) = None"

text \<open>
  \<open>Promise.all\<close>: rejected as soon as one input is rejected, with that reason;
  fulfilled with all values once every input is fulfilled; pending otherwise.
\<close>

definition Promise_all :: "'a promise list \<Rightarrow> 'a list promise" where
  "Promise_all ps =
     (case firstRejection ps of
        Some (t, e) \<Rightarrow> Some (t, Rejected e)
      | None \<Rightarrow>
          (case allFulfilled ps of
             Some (t, vs) \<Rightarrow> Some (t, Fulfilled vs)
           | None \<Rightarrow> None))"

text \<open>
  \<open>allWithProgress\<close>: the callback is called with 0, then after each promise that
  settles (fulfilled or rejected alike) with \<open>count * 100 / promises.length\<close>; the
  result is \<open>Promise.all(promises)\<close>. The model returns the arguments of the callback
  in call order (as exact quotients) and the joined promise.
\<close>

definition progressCalls :: "'a promise list \<Rightarrow> rat list" where
  "progressCalls promises =
     0 # map (\<lambda>count. of_nat (count * 100) / of_nat (length promises))
           [1 ..< Suc (length (filter (\<lambda>p. p \<noteq> None) promises))]"

definition allWithProgress :: "'a promise list \<Rightarrow> rat list \<times> 'a list promise" where
  "allWithProgress promises = (progressCalls promises, Promise_all promises)"

text \<open>\<open>await p\<close> followed by the rest of an async function, \<open>f\<close>.\<close>

fun awaitThen :: "'a promise \<Rightarrow> ('a \<Rightarrow> 'b promise) \<Rightarrow> 'b promise" where
  "awaitThen None f = None"
| "awaitThen (Some (t, Rejected e)) f = Some (t, Rejected e)"
| "awaitThen (Some (t, Fulfilled v)) f =
     (case f v of None \<Rightarrow> None | Some (t', r) \<Rightarrow> Some (t + t', r))"

text \<open>The time at which the last promise of a list settles.\<close>

fun lastSettled :: "'a promise list \<Rightarrow> nat option" where
  "lastSettled [] = Some 0"
| "lastSettled (None # ps) = None"
| "lastSettled (Some (t, r) # ps) =
     (case lastSettled ps of None \<Rightarrow> None | Some t' \<Rightarrow> Some (max t t'))"

section \<open>Rasterizing an image (DocumentRenderer.imageToDataUri)\<close>

text \<open>
  What the browser does with an image and a canvas. After \<open>image.src = url\<close> the
  image element fires \<open>load\<close> or \<open>error\<close>, after \<open>imageLatency url\<close> milliseconds.
  \<open>canvas.toDataURL('image/png')\<close> on the canvas the image was drawn on returns a PNG
  data URI, or \<open>data:,\<close> for a canvas without pixels, or throws a \<open>SecurityError\<close>
  for a tainted canvas. \<open>getContext('2d')\<close> of a new canvas yields a context, as the
  source asserts (\<open>ctx!\<close>). \<open>percentDecode\<close> is what \<open>decodeURI\<close> does with a string
  that contains a percent sign. \<open>resolveUrl\<close> is what reading the property \<open>src\<close> of
  an image does with the text of its \<open>src\<close> attribute: the text is parsed as a URL
  relative to the document and serialized again, and returned as it is when it cannot
  be parsed.
\<close>

datatype image_event = ImageLoad | ImageError

datatype canvas_export = PngData string | NoPixels | Tainted

record browser =
  imageEvent :: "string \<Rightarrow> image_event"
  imageLatency :: "string \<Rightarrow> nat"
  canvasExport :: "string \<Rightarrow> canvas_export"
  percentDecode :: "string \<Rightarrow> js_error + string"
  resolveUrl :: "string \<Rightarrow> string"

text \<open>What an event handler does to the promise and the console, in order.\<close>

datatype handler_step = Resolve string | ConsoleError string

fun firstResolve :: "handler_step list \<Rightarrow> string option" where
  "firstResolve [] = None"
| "firstResolve (Resolve v # steps) = Some v"
| "firstResolve (ConsoleError m # steps) = firstResolve steps"

text \<open>
  \<open>image.onload\<close>: the export is tried; when it throws, the error is logged and the
  promise is resolved with the original url. \<open>image.onerror\<close>: the same fallback.
\<close>

definition image_onload :: "browser \<Rightarrow> string \<Rightarrow> handler_step list" where
  "image_onload b url =
     (case canvasExport b url of
        PngData payload \<Rightarrow> [Resolve (''data:image/png;base64,'' @ payload)]
      | NoPixels \<Rightarrow> [Resolve ''data:,'']
      | Tainted \<Rightarrow> [ConsoleError (''failed '' @ url), Resolve url])"

definition image_onerror :: "string \<Rightarrow> handler_step list" where
  "image_onerror url = [ConsoleError ''could not load data uri'', Resolve url]"

definition imageToDataUri :: "browser \<Rightarrow> string \<Rightarrow> string promise" where
  "imageToDataUri b url =
     (case firstResolve
             (case imageEvent b url of
                ImageLoad \<Rightarrow> image_onload b url
              | ImageError \<Rightarrow> image_onerror url) of
        None \<Rightarrow> None
      | Some uri \<Rightarrow> Some (imageLatency b url, Fulfilled uri))"

section \<open>Reading from the vault\<close>

text \<open>
  \<open>arrayBufferToBase64\<close> of the Obsidian API: standard base64 with padding.
\<close>

definition base64Alphabet :: string where
  "base64Alphabet = ''ABCDEFGHIJKLMNOPQRSTUVWXYZabcdefghijklmnopqrstuvwxyz0123456789+/''"

definition base64Char :: "nat \<Rightarrow> char" where
  "base64Char i = base64Alphabet ! (i mod 64)"

fun arrayBufferToBase64 :: "8 word list \<Rightarrow> string" where
  "arrayBufferToBase64 [] = []"
| "arrayBufferToBase64 [a] =
     [base64Char (unat a div 4), base64Char (unat a mod 4 * 16), CHR ''='', CHR ''='']"
| "arrayBufferToBase64 [a, b] =
     [base64Char (unat a div 4), base64Char (unat a mod 4 * 16 + unat b div 16),
      base64Char (unat b mod 16 * 4), CHR ''='']"
| "arrayBufferToBase64 (a # b # c # rest) =
     [base64Char (unat a div 4), base64Char (unat a mod 4 * 16 + unat b div 16),
      base64Char (unat b mod 16 * 4 + unat c div 64), base64Char (unat c mod 64)]
     @ arrayBufferToBase64 rest"

text \<open>
  The vault: \<open>getAbstractFileByPath\<close> yields a file with its bytes, a folder, or
  nothing; \<open>readLatency\<close> is the time \<open>readBinary\<close> takes. \<open>vaultPath\<close> is the base
  path of the vault with forward slashes.
\<close>

datatype vault_entry = VaultFile "8 word list" | VaultFolder

record vault =
  vaultPath :: string
  getAbstractFileByPath :: "string \<Rightarrow> vault_entry option"
  readLatency :: "string \<Rightarrow> nat"

definition vaultLocalUriPrefix :: "vault \<Rightarrow> string" where
  "vaultLocalUriPrefix v = ''app://local/'' @ vaultPath v"

definition readFromVault :: "vault \<Rightarrow> string \<Rightarrow> string \<Rightarrow> string promise" where
  "readFromVault v filePath mimeType =
     (case getAbstractFileByPath v filePath of
        Some (VaultFile bytes) \<Rightarrow>
          Some (readLatency v filePath,
                Fulfilled (''data:'' @ mimeType @ '';base64,'' @ arrayBufferToBase64 bytes))
      | _ \<Rightarrow> Some (0, Rejected (Error (''File not found: '' @ filePath))))"

section \<open>Replacing one image source (DocumentRenderer.replaceImageSource)\<close>

text \<open>
  \<open>decodeURI\<close> copies every character but the percent sign; what it does with an
  escape sequence (decode it, keep it, or throw a \<open>URIError\<close>) is the browser's.
\<close>

definition decodeURI :: "browser \<Rightarrow> string \<Rightarrow> js_error + string" where
  "decodeURI b s = (if CHR ''%'' \<in> set s then percentDecode b s else Inr s)"

text \<open>
  \<open>s.replace(/[?#].*/, '')\<close>: the first \<open>?\<close> or \<open>#\<close> and everything after it up to
  the end of its line are removed (the dot does not match a line terminator).
\<close>

definition isLineTerminator :: "char \<Rightarrow> bool" where
  "isLineTerminator c = (c = CHR 0x0A \<or> c = CHR 0x0D)"

definition stripQueryAndHash :: "string \<Rightarrow> string" where
  "stripQueryAndHash s =
     takeWhile (\<lambda>c. c \<noteq> CHR ''?'' \<and> c \<noteq> CHR ''#'') s
     @ dropWhile (\<lambda>c. \<not> isLineTerminator c) (dropWhile (\<lambda>c. c \<noteq> CHR ''?'' \<and> c \<noteq> CHR ''#'') s)"

text \<open>The settings of the plugin that the renderer reads.\<close>

record settings =
  removeFrontMatter :: bool
  convertSvgToBitmap :: bool
  disableImageEmbedding :: bool

definition DEFAULT_SETTINGS :: settings where
  "DEFAULT_SETTINGS =
     \<lparr>removeFrontMatter = True, convertSvgToBitmap = True, disableImageEmbedding = False\<rparr>"

text \<open>
  \<open>replaceImageSource\<close> for an image whose property \<open>src\<close> reads \<open>src\<close>: the
  promise of the value that is stored into \<open>image.src\<close>. A throw before the first \<open>await\<close> rejects
  the promise at once.
\<close>

definition replaceImageSource :: "browser \<Rightarrow> vault \<Rightarrow> settings \<Rightarrow> string \<Rightarrow> string promise" where
  "replaceImageSource b v options src =
     (case decodeURI b src of
        Inl e \<Rightarrow> Some (0, Rejected e)
      | Inr imageSourcePath \<Rightarrow>
          if startsWith imageSourcePath (vaultLocalUriPrefix v) then
            (case decodeURI b (stripQueryAndHash
                     (substring imageSourcePath (int (length (vaultLocalUriPrefix v)) + 1))) of
               Inl e \<Rightarrow> Some (0, Rejected e)
             | Inr filePath \<Rightarrow>
                 awaitThen (readFromVault v filePath (guessMimeType filePath))
                   (\<lambda>data. if isSvg (guessMimeType filePath) \<and> convertSvgToBitmap options
                            then imageToDataUri b data
                            else Some (0, Fulfilled data)))
          else imageToDataUri b src)"

section \<open>The document tree\<close>

text \<open>
  An element has a local name (lower case for HTML elements, whose \<open>tagName\<close> is the
  same name in upper case), attributes in order, and child nodes.
\<close>

datatype node = Element string "(string \<times> string) list" "node list" | Text string

definition getAttribute :: "(string \<times> string) list \<Rightarrow> string \<Rightarrow> string option" where
  "getAttribute attrs n = map_of attrs n"

fun setAttribute :: "string \<Rightarrow> string \<Rightarrow> (string \<times> string) list \<Rightarrow> (string \<times> string) list" where
  "setAttribute n v [] = [(n, v)]"
| "setAttribute n v ((k, x) # attrs) =
     (if k = n then (k, v) # attrs else (k, x) # setAttribute n v attrs)"

definition removeAttribute :: "string \<Rightarrow> (string \<times> string) list \<Rightarrow> (string \<times> string) list" where
  "removeAttribute n attrs = filter (\<lambda>(k, x). k \<noteq> n) attrs"

text \<open>The class list: the \<open>class\<close> attribute split at white space.\<close>

definition isAsciiWhitespace :: "char \<Rightarrow> bool" where
  "isAsciiWhitespace c = (c \<in> set [CHR 0x09, CHR 0x0A, CHR 0x0C, CHR 0x0D, CHR '' ''])"

fun splitTokens :: "string \<Rightarrow> string \<Rightarrow> string list" where
  "splitTokens [] cur = (if cur = [] then [] else [rev cur])"
| "splitTokens (c # cs) cur =
     (if isAsciiWhitespace c
      then (if cur = [] then splitTokens cs [] else rev cur # splitTokens cs [])
      else splitTokens cs (c # cur))"

definition classList :: "(string \<times> string) list \<Rightarrow> string list" where
  "classList attrs = (case getAttribute attrs ''class'' of None \<Rightarrow> [] | Some c \<Rightarrow> splitTokens c [])"

definition hasClass :: "string \<Rightarrow> node \<Rightarrow> bool" where
  "hasClass c n = (case n of Element tag attrs kids \<Rightarrow> c \<in> set (classList attrs) | Text t \<Rightarrow> False)"

definition hasTag :: "string \<Rightarrow> node \<Rightarrow> bool" where
  "hasTag t n = (case n of Element tag attrs kids \<Rightarrow> tag = t | Text x \<Rightarrow> False)"

text \<open>
  \<open>node.querySelectorAll(sel).forEach(n => n.remove())\<close> for a selector that looks at
  the element alone: every matching descendant goes, with its subtree.
\<close>

fun removeDescendants :: "(node \<Rightarrow> bool) \<Rightarrow> node \<Rightarrow> node" where
  "removeDescendants P (Text t) = Text t"
| "removeDescendants P (Element tag attrs kids) =
     Element tag attrs (map (removeDescendants P) (filter (\<lambda>k. \<not> P k) kids))"

text \<open>
  \<open>node.querySelectorAll(sel).forEach(n => n.setAttribute(name, value))\<close> for such a
  selector, on this node (when \<open>self\<close> is set) and its descendants.
\<close>

fun setOnMatching :: "(node \<Rightarrow> bool) \<Rightarrow> string \<Rightarrow> string \<Rightarrow> bool \<Rightarrow> node \<Rightarrow> node" where
  "setOnMatching P n v self (Text t) = Text t"
| "setOnMatching P n v self (Element tag attrs kids) =
     Element tag
       (if self \<and> P (Element tag attrs kids) then setAttribute n v attrs else attrs)
       (map (setOnMatching P n v True) kids)"

definition removeFrontMatterPass :: "node \<Rightarrow> node" where
  "removeFrontMatterPass n =
     removeDescendants (\<lambda>k. hasClass ''frontmatter'' k \<or> hasClass ''frontmatter-container'' k) n"

definition isCheckbox :: "node \<Rightarrow> bool" where
  "isCheckbox n =
     (case n of
        Element tag attrs kids \<Rightarrow> tag = ''input'' \<and> getAttribute attrs ''type'' = Some ''checkbox''
      | Text t \<Rightarrow> False)"

definition makeCheckboxesReadOnly :: "node \<Rightarrow> node" where
  "makeCheckboxesReadOnly n = setOnMatching isCheckbox ''disabled'' ''disabled'' False n"

definition removeCollapseIndicators :: "node \<Rightarrow> node" where
  "removeCollapseIndicators n = removeDescendants (hasClass ''collapse-indicator'') n"

definition removeButtons :: "node \<Rightarrow> node" where
  "removeButtons n = removeDescendants (hasTag ''button'') n"

definition removeStrangeNewWorldsLinks :: "node \<Rightarrow> node" where
  "removeStrangeNewWorldsLinks n = removeDescendants (hasClass ''snw-reference'') n"

section \<open>Embedding images (DocumentRenderer.embedImages)\<close>

text \<open>
  Reading \<open>img.src\<close>: the empty string when the image has no \<open>src\<close> attribute,
  and otherwise the URL the browser resolves the text of the attribute to. Writing
  \<open>img.src = u\<close> sets the text of the attribute to \<open>u\<close>.
\<close>

definition imgSrc :: "browser \<Rightarrow> (string \<times> string) list \<Rightarrow> string" where
  "imgSrc b attrs =
     (case getAttribute attrs ''src'' of None \<Rightarrow> [] | Some s \<Rightarrow> resolveUrl b s)"

text \<open>What \<open>img.src\<close> reads on the \<open>img\<close> elements of a subtree, in document order.\<close>

fun imgSources :: "browser \<Rightarrow> node \<Rightarrow> string list" where
  "imgSources b (Text t) = []"
| "imgSources b (Element tag attrs kids) =
     (if tag = ''img'' then [imgSrc b attrs] else []) @ concat (map (imgSources b) kids)"

text \<open>\<open>node.querySelectorAll('img')\<close>: the images among the descendants of the node.\<close>

definition querySelectorAll_img :: "browser \<Rightarrow> node \<Rightarrow> string list" where
  "querySelectorAll_img b n =
     (case n of Element tag attrs kids \<Rightarrow> concat (map (imgSources b) kids) | Text t \<Rightarrow> [])"

text \<open>
  The test of the \<open>forEach\<close> body, on what \<open>img.src\<close> reads: an image is handed to
  \<open>replaceImageSource\<close> when it has a source that begins with \<open>data:image/svg+xml\<close>
  (and SVG is converted to bitmap), or that does not begin with \<open>data:\<close>.
\<close>

definition needsEmbedding :: "settings \<Rightarrow> string \<Rightarrow> bool" where
  "needsEmbedding options src =
     (src \<noteq> [] \<and>
      ((startsWith src ''data:image/svg+xml'' \<and> convertSvgToBitmap options)
       \<or> \<not> startsWith src ''data:''))"

text \<open>
  What the image's source is once its promise is fulfilled; an image that is not
  handed over, or whose promise is not fulfilled, keeps its source.
\<close>

definition embeddedSource :: "browser \<Rightarrow> vault \<Rightarrow> settings \<Rightarrow> string \<Rightarrow> string" where
  "embeddedSource b v options src =
     (if needsEmbedding options src then
        (case replaceImageSource b v options src of
           Some (t, Fulfilled uri) \<Rightarrow> uri
         | _ \<Rightarrow> src)
      else src)"

text \<open>The assignments \<open>image.src = \<dots>\<close> of the fulfilled promises, on a subtree.\<close>

fun storeSources :: "browser \<Rightarrow> settings \<Rightarrow> (string \<Rightarrow> string) \<Rightarrow> node \<Rightarrow> node" where
  "storeSources b options f (Text t) = Text t"
| "storeSources b options f (Element tag attrs kids) =
     Element tag
       (if tag = ''img'' \<and> needsEmbedding options (imgSrc b attrs)
        then setAttribute ''src'' (f (imgSrc b attrs)) attrs else attrs)
       (map (storeSources b options f) kids)"

definition storeSourcesBelow :: "browser \<Rightarrow> settings \<Rightarrow> (string \<Rightarrow> string) \<Rightarrow> node \<Rightarrow> node" where
  "storeSourcesBelow b options f n =
     (case n of
        Element tag attrs kids \<Rightarrow> Element tag attrs (map (storeSources b options f) kids)
      | Text t \<Rightarrow> Text t)"

text \<open>
  \<open>embedImages\<close>: one promise per image handed over, joined by \<open>allWithProgress\<close>;
  when the join is fulfilled, the node with the new sources is returned. The first
  component is the sequence of values shown by the progress bar.
\<close>

definition embedPromises :: "browser \<Rightarrow> vault \<Rightarrow> settings \<Rightarrow> node \<Rightarrow> string promise list" where
  "embedPromises b v options n =
     map (replaceImageSource b v options) (filter (needsEmbedding options) (querySelectorAll_img b n))"

definition embedImages :: "browser \<Rightarrow> vault \<Rightarrow> settings \<Rightarrow> node \<Rightarrow> rat list \<times> node promise" where
  "embedImages b v options n =
     (fst (allWithProgress (embedPromises b v options n)),
      awaitThen (snd (allWithProgress (embedPromises b v options n)))
        (\<lambda>values. Some (0, Fulfilled (storeSourcesBelow b options (embeddedSource b v options) n))))"

text \<open>What a promise ends as, without the time.\<close>

definition outcome :: "'a promise \<Rightarrow> 'a settled option" where
  "outcome p = map_option snd p"

section \<open>The transformation pipeline and the end of a copy\<close>

text \<open>
  \<open>transformHTML\<close>: the synchronous passes on a clone without its \<open>style\<close>
  attribute, then, unless image embedding is disabled, \<open>embedImages\<close> and
  \<open>renderSvg\<close>. \<open>renderSvg\<close> is passed in.
\<close>

definition cleanupPasses :: "settings \<Rightarrow> node \<Rightarrow> node" where
  "cleanupPasses options element =
     (let n0 = (case element of
                  Element tag attrs kids \<Rightarrow> Element tag (removeAttribute ''style'' attrs) kids
                | Text t \<Rightarrow> Text t);
          n1 = (if removeFrontMatter options then removeFrontMatterPass n0 else n0)
      in removeStrangeNewWorldsLinks (removeButtons (removeCollapseIndicators
           (makeCheckboxesReadOnly n1))))"

definition transformHTML ::
  "browser \<Rightarrow> vault \<Rightarrow> settings \<Rightarrow> (node \<Rightarrow> node promise) \<Rightarrow> node \<Rightarrow> node promise" where
  "transformHTML b v options renderSvg element =
     (if \<not> disableImageEmbedding options
      then awaitThen (snd (embedImages b v options (cleanupPasses options element))) renderSvg
      else Some (0, Fulfilled (cleanupPasses options element)))"

text \<open>
  The \<open>try\<close>/\<open>catch\<close>/\<open>finally\<close> of \<open>doCopy\<close>, given the promise of
  \<open>renderDocument\<close> and the rest of the \<open>try\<close> block: the notice shown and the globals
  afterwards, or \<open>None\<close> when the copy never ends. The notice of success, a Chinese
  text in the source, is written \<open>copied\<close>.
\<close>

definition doCopy_end ::
  "node promise \<Rightarrow> (node \<Rightarrow> string promise) \<Rightarrow> globals \<Rightarrow> (string \<times> globals) option" where
  "doCopy_end rendered rest g =
     (case awaitThen rendered rest of
        None \<Rightarrow> None
      | Some (t, Fulfilled html) \<Rightarrow> Some (''copied'', doCopy_finally g)
      | Some (t, Rejected e) \<Rightarrow> Some (''copy failed: '' @ message e, doCopy_finally g))"

section \<open>Local-store images and their mime types\<close>

text \<open>
  The mime type \<open>replaceImageSource\<close> guesses for a source that points into the
  vault; \<open>None\<close> for any other source.
\<close>

definition localStoreMimeType :: "browser \<Rightarrow> vault \<Rightarrow> string \<Rightarrow> string option" where
  "localStoreMimeType b v src =
     (case decodeURI b src of
        Inl e \<Rightarrow> None
      | Inr imageSourcePath \<Rightarrow>
          if startsWith imageSourcePath (vaultLocalUriPrefix v) then
            (case decodeURI b (stripQueryAndHash
                     (substring imageSourcePath (int (length (vaultLocalUriPrefix v)) + 1))) of
               Inl e \<Rightarrow> None
             | Inr filePath \<Rightarrow> Some (guessMimeType filePath))
          else None)"

text \<open>
  A mime type that begins with \<open>image/svg+xml\<close> and goes on, as a file extension such
  as \<open>svg+xmlz\<close> gives. It is not the SVG mime type, but a data URI of this type
  begins with \<open>data:image/svg+xml\<close>.
\<close>

definition svgLikeMimeType :: "string \<Rightarrow> bool" where
  "svgLikeMimeType m = (startsWith m ''image/svg+xml'' \<and> m \<noteq> ''image/svg+xml'')"

text \<open>
  The data URI that \<open>readFromVault\<close> makes of the file a source points to;
  \<open>None\<close> for a source that does not point to a file of the vault.
\<close>

definition localStoreData :: "browser \<Rightarrow> vault \<Rightarrow> string \<Rightarrow> string option" where
  "localStoreData b v src =
     (case decodeURI b src of
        Inl e \<Rightarrow> None
      | Inr imageSourcePath \<Rightarrow>
          if startsWith imageSourcePath (vaultLocalUriPrefix v) then
            (case decodeURI b (stripQueryAndHash
                     (substring imageSourcePath (int (length (vaultLocalUriPrefix v)) + 1))) of
               Inl e \<Rightarrow> None
             | Inr filePath \<Rightarrow>
                 (case readFromVault v filePath (guessMimeType filePath) of
                    Some (t, Fulfilled data) \<Rightarrow> Some data
                  | _ \<Rightarrow> None))
          else None)"

text \<open>
  A source that \<open>replaceImageSource\<close> takes for an image outside the vault: it
  decodes, and the decoded text does not begin with the prefix of the vault.
\<close>

definition outsideVault :: "browser \<Rightarrow> vault \<Rightarrow> string \<Rightarrow> bool" where
  "outsideVault b v src =
     (case decodeURI b src of
        Inl e \<Rightarrow> False
      | Inr imageSourcePath \<Rightarrow> \<not> startsWith imageSourcePath (vaultLocalUriPrefix v))"

text \<open>The image does not load, or the export of the canvas throws.\<close>

definition rasterizationFails :: "browser \<Rightarrow> string \<Rightarrow> bool" where
  "rasterizationFails b url = (imageEvent b url = ImageError \<or> canvasExport b url = Tainted)"

text \<open>
  \<open>replaceImageSource\<close> falls back on a source: the source is taken for an image
  outside the vault and its rasterization fails.
\<close>

definition fallsBackOn :: "browser \<Rightarrow> vault \<Rightarrow> string \<Rightarrow> bool" where
  "fallsBackOn b v u = (outsideVault b v u \<and> rasterizationFails b u)"

text \<open>
  The images that a second pass rasterizes although the first pass has embedded them:
  with SVG converted to bitmap, a local-store image whose file exists, whose mime type
  merely begins with \<open>image/svg+xml\<close>, and on whose data URI \<open>replaceImageSource\<close>
  does not fall back. \<open>plainSources\<close> says that the tree has no such image.
\<close>

definition rasterizedAgain :: "browser \<Rightarrow> vault \<Rightarrow> settings \<Rightarrow> string \<Rightarrow> bool" where
  "rasterizedAgain b v options src =
     (convertSvgToBitmap options \<and>
      (case localStoreMimeType b v src of
         None \<Rightarrow> False
       | Some m \<Rightarrow>
           svgLikeMimeType m \<and>
           (case localStoreData b v src of
              None \<Rightarrow> False
            | Some data \<Rightarrow> \<not> fallsBackOn b v data)))"

definition plainSources :: "browser \<Rightarrow> vault \<Rightarrow> settings \<Rightarrow> node \<Rightarrow> bool" where
  "plainSources b v options n =
     list_all (\<lambda>src. \<not> rasterizedAgain b v options src) (querySelectorAll_img b n)"

text \<open>
  The value stored into \<open>image.src\<close> is read back as it was stored: the browser
  resolves it to itself, as it does with a URL in serialized form.
  \<open>storedSourcesReadBack\<close> asks of every value that \<open>replaceImageSource\<close> stores
  into an image of the tree that it is read back as it was stored, or as a source that
  \<open>embedImages\<close> leaves alone.
\<close>

definition readsBack :: "browser \<Rightarrow> string \<Rightarrow> bool" where
  "readsBack b u = (resolveUrl b u = u)"

definition storedSourcesReadBack :: "browser \<Rightarrow> vault \<Rightarrow> settings \<Rightarrow> node \<Rightarrow> bool" where
  "storedSourcesReadBack b v options n =
     list_all (\<lambda>src. if needsEmbedding options src
                     then readsBack b (embeddedSource b v options src)
                          \<or> \<not> needsEmbedding options (resolveUrl b (embeddedSource b v options src))
                     else True)
       (querySelectorAll_img b n)"

text \<open>Running \<open>embedImages\<close> on the result of \<open>embedImages\<close>.\<close>

definition embedImagesTwice :: "browser \<Rightarrow> vault \<Rightarrow> settings \<Rightarrow> node \<Rightarrow> node promise" where
  "embedImagesTwice b v options n =
     awaitThen (snd (embedImages b v options n)) (\<lambda>n'. snd (embedImages b v options n'))"

section \<open>Example environments\<close>

text \<open>
  A PNG file of one red pixel, and its base64 text.
\<close>

definition redPixelPng :: "8 word list" where
  "redPixelPng =
     [137, 80, 78, 71, 13, 10, 26, 10, 0, 0, 0, 13, 73, 72, 68, 82,
      0, 0, 0, 1, 0, 0, 0, 1, 8, 2, 0, 0, 0, 144, 119, 83,
      222, 0, 0, 0, 12, 73, 68, 65, 84, 120, 218, 99, 248, 207, 192, 0,
      0, 3, 1, 1, 0, 247, 3, 65, 67, 0, 0, 0, 0, 73, 69, 78,
      68, 174, 66, 96, 130]"

definition redPixelBase64 :: string where
  "redPixelBase64 =
     ''iVBORw0KGgoAAAANSUhEUgAAAAEAAAABCAIAAACQd1PeAAAA''
     @ ''DElEQVR42mP4z8AAAAMBAQD3A0FDAAAAAElFTkSuQmCC''"

text \<open>
  URL resolution and \<open>decodeURI\<close> in a browser whose document is at
  \<open>app://obsidian.md/index.html\<close>, as far as the examples need them: the relative
  reference \<open>a b.png\<close> resolves to \<open>app://obsidian.md/a%20b.png\<close>, which
  \<open>decodeURI\<close> decodes to \<open>app://obsidian.md/a b.png\<close>; the other strings of the
  examples are URLs in serialized form without escape sequences.
\<close>

definition resolveExample :: "string \<Rightarrow> string" where
  "resolveExample s = (if s = ''a b.png'' then ''app://obsidian.md/a%20b.png'' else s)"

definition decodeExample :: "string \<Rightarrow> js_error + string" where
  "decodeExample s =
     (if s = ''app://obsidian.md/a%20b.png'' then Inr ''app://obsidian.md/a b.png'' else Inr s)"

text \<open>
  A browser in which every image loads after 500 ms and every canvas exports that PNG,
  one in which no image loads and every canvas is tainted, and one in which the images
  given as data URIs load and no other image does.
\<close>

definition loadingBrowser :: browser where
  "loadingBrowser =
     \<lparr>imageEvent = (\<lambda>url. ImageLoad), imageLatency = (\<lambda>url. 500),
      canvasExport = (\<lambda>url. PngData redPixelBase64), percentDecode = decodeExample,
      resolveUrl = resolveExample\<rparr>"

definition failingBrowser :: browser where
  "failingBrowser =
     \<lparr>imageEvent = (\<lambda>url. ImageError), imageLatency = (\<lambda>url. 500),
      canvasExport = (\<lambda>url. Tainted), percentDecode = decodeExample,
      resolveUrl = resolveExample\<rparr>"

definition offlineBrowser :: browser where
  "offlineBrowser =
     \<lparr>imageEvent = (\<lambda>url. if startsWith url ''data:'' then ImageLoad else ImageError),
      imageLatency = (\<lambda>url. 500),
      canvasExport = (\<lambda>url. PngData redPixelBase64), percentDecode = decodeExample,
      resolveUrl = resolveExample\<rparr>"

text \<open>
  A vault at \<open>/vault\<close> with no file, one whose only file is the PNG, stored
  under the name \<open>pic.svg+xmlz\<close>, and one with the PNG as \<open>pic.png\<close> and the SVG
  document \<open><svg/>\<close> as \<open>drawing.svg\<close>.
\<close>

definition emptyVault :: vault where
  "emptyVault =
     \<lparr>vaultPath = ''/vault'', getAbstractFileByPath = (\<lambda>p. None), readLatency = (\<lambda>p. 5)\<rparr>"

definition oddVault :: vault where
  "oddVault =
     \<lparr>vaultPath = ''/vault'',
      getAbstractFileByPath = (\<lambda>p. if p = ''pic.svg+xmlz'' then Some (VaultFile redPixelPng) else None),
      readLatency = (\<lambda>p. 5)\<rparr>"

definition emptySvg :: "8 word list" where
  "emptySvg = [60, 115, 118, 103, 47, 62]"

definition pictureVault :: vault where
  "pictureVault =
     \<lparr>vaultPath = ''/vault'',
      getAbstractFileByPath =
        (\<lambda>p. if p = ''pic.png'' then Some (VaultFile redPixelPng)
              else if p = ''drawing.svg'' then Some (VaultFile emptySvg) else None),
      readLatency = (\<lambda>p. 5)\<rparr>"

text \<open>
  A document with an image of the vault that does not exist and an external image; a
  document with an external image, an image that is a PNG data URI already and an
  image without source; a document with the image \<open>pic.svg+xmlz\<close> of the vault; a
  document with the image \<open>drawing.svg\<close> of the vault; and a document with the two
  images of the vault, an image given by a relative reference, a PNG data URI and an
  image without source.
\<close>

definition missingImageDocument :: node where
  "missingImageDocument =
     Element ''div'' []
       [Element ''img'' [(''src'', ''app://local//vault/missing.png'')] [],
        Element ''img'' [(''src'', ''https://example.org/a.png'')] []]"

definition mixedDocument :: node where
  "mixedDocument =
     Element ''div'' []
       [Element ''img'' [(''src'', ''https://example.org/a.png''), (''alt'', ''a'')] [],
        Element ''p'' []
          [Element ''img'' [(''src'', ''data:image/png;base64,AAAA'')] [],
           Element ''img'' [(''alt'', ''none'')] []]]"

definition oddDocument :: node where
  "oddDocument =
     Element ''div'' [] [Element ''img'' [(''src'', ''app://local//vault/pic.svg+xmlz'')] []]"


definition drawingDocument :: node where
  "drawingDocument =
     Element ''div'' [] [Element ''img'' [(''src'', ''app://local//vault/drawing.svg'')] []]"

definition galleryDocument :: node where
  "galleryDocument =
     Element ''div'' []
       [Element ''img'' [(''src'', ''app://local//vault/pic.png?1700000000000''), (''alt'', ''pic'')] [],
        Element ''img'' [(''src'', ''app://local//vault/drawing.svg'')] [],
        Element ''p'' []
          [Element ''img'' [(''src'', ''a b.png'')] [],
           Element ''img'' [(''src'', ''data:image/png;base64,AAAA'')] [],
           Element ''img'' [(''alt'', ''none'')] []]]"
section \<open>Inline styles (CopyDocument2MpPlugin.applyInlineStyles)\<close>

text \<open>
  The style catalog \<open>STYLES\<close> lives in another module; it is a parameter here, a
  lookup from a style name to a style object. The \<open>styles\<close> of a style object map a
  selector to its declarations, in the order of \<open>Object.keys\<close>; \<open>container\<close> is one
  of the keys.
\<close>

record style_object =
  styles :: "(string \<times> string) list"

type_synonym style_catalog = "string \<Rightarrow> style_object option"

text \<open>
  What the browser contributes: the HTML parser (the child nodes of the body of the
  parsed document), selector matching (does the element at an index path of the body
  match the selector, in the document as it is when \<open>querySelectorAll\<close> runs) and
  serialization. A selector that the browser rejects is not modelled.
\<close>

record dom_env =
  parseFromString :: "string \<Rightarrow> node list"
  matchesSelector :: "string \<Rightarrow> node list \<Rightarrow> nat list \<Rightarrow> bool"
  outerHTML :: "node \<Rightarrow> string"

text \<open>String concatenation turns \<open>undefined\<close> into the text \<open>undefined\<close>.\<close>

definition jsString :: "string option \<Rightarrow> string" where
  "jsString x = (case x of None \<Rightarrow> ''undefined'' | Some s \<Rightarrow> s)"

text \<open>\<open>el.getAttribute('style') || ''\<close>.\<close>

definition currentStyle :: "(string \<times> string) list \<Rightarrow> string" where
  "currentStyle attrs = (case getAttribute attrs ''style'' of None \<Rightarrow> [] | Some s \<Rightarrow> s)"

text \<open>
  The body of \<open>elements.forEach\<close> for one selector, over the tree. \<open>matched\<close> says
  which index paths \<open>querySelectorAll\<close> returned, \<open>declarations\<close> is
  \<open>style[selector]\<close>, \<open>liDeclarations\<close> is \<open>style["li"]\<close>, \<open>grid\<close> says that an
  ancestor has the class \<open>image-grid\<close>, and \<open>pos\<close> is the index path of the node.
  An image in an image grid is skipped. A list item gets its children wrapped into one
  new \<open>p\<close> (as clones) and the declarations of \<open>li\<close>; the matched elements that
  were below it are no longer in the document, so the pass does not reach the clones.
  Any other matched element gets the declarations of the selector after its own.
\<close>

fun styleNode ::
    "(nat list \<Rightarrow> bool) \<Rightarrow> string \<Rightarrow> string \<Rightarrow> bool \<Rightarrow> nat list \<Rightarrow> node \<Rightarrow> node"
  and styleNodes ::
    "(nat list \<Rightarrow> bool) \<Rightarrow> string \<Rightarrow> string \<Rightarrow> bool \<Rightarrow> nat list \<Rightarrow> nat \<Rightarrow> node list \<Rightarrow> node list"
  where
  "styleNode matched declarations liDeclarations grid pos (Text t) = Text t"
| "styleNode matched declarations liDeclarations grid pos (Element tag attrs kids) =
     (if matched pos \<and> \<not> (tag = ''img'' \<and> (grid \<or> ''image-grid'' \<in> set (classList attrs))) then
        (if tag = ''li'' then
           Element tag
             (setAttribute ''style'' (currentStyle attrs @ ''; '' @ liDeclarations) attrs)
             [Element ''p'' [] kids]
         else
           Element tag
             (setAttribute ''style'' (currentStyle attrs @ ''; '' @ declarations) attrs)
             (styleNodes matched declarations liDeclarations
                (grid \<or> ''image-grid'' \<in> set (classList attrs)) pos 0 kids))
      else
        Element tag attrs
          (styleNodes matched declarations liDeclarations
             (grid \<or> ''image-grid'' \<in> set (classList attrs)) pos 0 kids))"
| "styleNodes matched declarations liDeclarations grid pos i [] = []"
| "styleNodes matched declarations liDeclarations grid pos i (n # ns) =
     styleNode matched declarations liDeclarations grid (pos @ [i]) n
     # styleNodes matched declarations liDeclarations grid pos (Suc i) ns"

text \<open>
  One round of \<open>Object.keys(style).forEach\<close>: the selectors \<open>pre\<close>, \<open>code\<close> and
  \<open>pre code\<close> are skipped.
\<close>

definition applySelector ::
  "dom_env \<Rightarrow> (string \<times> string) list \<Rightarrow> string \<Rightarrow> node list \<Rightarrow> node list" where
  "applySelector env style selector body =
     (if selector = ''pre'' \<or> selector = ''code'' \<or> selector = ''pre code'' then body
      else styleNodes (matchesSelector env selector body)
             (jsString (map_of style selector)) (jsString (map_of style ''li''))
             False [] 0 body)"

definition applySelectors ::
  "dom_env \<Rightarrow> (string \<times> string) list \<Rightarrow> node list \<Rightarrow> node list" where
  "applySelectors env style body =
     foldl (\<lambda>doc selector. applySelector env style selector doc) body (map fst style)"

text \<open>
  \<open>applyInlineStyles\<close>: the messages written with \<open>console.warn\<close>, and the HTML
  returned or the error thrown. When the style name is not in the catalog, the warning
  (a Chinese text in the source) is logged and \<open>styleObj.styles\<close> is read from
  \<open>undefined\<close>, which throws a \<open>TypeError\<close>.
\<close>

definition applyInlineStyles ::
  "dom_env \<Rightarrow> style_catalog \<Rightarrow> string \<Rightarrow> string \<Rightarrow> string list \<times> (js_error + string)" where
  "applyInlineStyles env STYLES html applyStyle =
     (case STYLES applyStyle of
        None \<Rightarrow>
          ([''style '' @ applyStyle @ '' does not exist, using the default style''],
           Inl (TypeError ''Cannot read properties of undefined (reading styles)''))
      | Some styleObj \<Rightarrow>
          ([],
           Inr (outerHTML env
                 (Element ''div'' [(''style'', jsString (map_of (styles styleObj) ''container''))]
                    (applySelectors env (styles styleObj) (parseFromString env html))))))"

text \<open>
  The last steps of the \<open>try\<close> block of \<open>doCopy\<close> from \<open>applyInlineStyles\<close> on:
  a throw skips the clipboard and is the rejection that the \<open>catch\<close> block reports.
  The write to the clipboard itself is left out.
\<close>

definition styleAndWrite :: "dom_env \<Rightarrow> style_catalog \<Rightarrow> string \<Rightarrow> string \<Rightarrow> string promise" where
  "styleAndWrite env STYLES applyStyle htmlDocument =
     (case snd (applyInlineStyles env STYLES htmlDocument applyStyle) of
        Inl e \<Rightarrow> Some (0, Rejected e)
      | Inr html \<Rightarrow> Some (0, Fulfilled html))"

text \<open>The node at an index path below a list of nodes.\<close>

fun nodeAt :: "node list \<Rightarrow> nat list \<Rightarrow> node option" where
  "nodeAt ns [] = None"
| "nodeAt ns [i] = (if i < length ns then Some (ns ! i) else None)"
| "nodeAt ns (i # j # p) =
     (if i < length ns then
        (case ns ! i of Element tag attrs kids \<Rightarrow> nodeAt kids (j # p) | Text t \<Rightarrow> None)
      else None)"

text \<open>
  Is the node at the path, or one of its ancestors up to the root of the list, of class
  \<open>image-grid\<close>: what \<open>el.closest('.image-grid')\<close> finds.
\<close>

fun inImageGrid :: "node list \<Rightarrow> nat list \<Rightarrow> bool" where
  "inImageGrid ns [] = False"
| "inImageGrid ns (i # p) =
     (i < length ns \<and>
      (case ns ! i of
         Element tag attrs kids \<Rightarrow> ''image-grid'' \<in> set (classList attrs) \<or> inImageGrid kids p
       | Text t \<Rightarrow> False))"

section \<open>One element through the rounds of applyInlineStyles\<close>

text \<open>
  An element is followed by its index path. In the round of one selector the element
  is still in the document when the callback reaches it unless one of its proper
  ancestors is a list item that the selector matches (the callback has then replaced
  the children of that list item by clones); \<open>reached\<close> says that there is no such
  ancestor. \<open>pos\<close> is the index path of the node list, as in \<open>styleNodes\<close>.
\<close>

fun reached :: "(nat list \<Rightarrow> bool) \<Rightarrow> nat list \<Rightarrow> node list \<Rightarrow> nat list \<Rightarrow> bool" where
  "reached matched pos ns [] = True"
| "reached matched pos ns [i] = True"
| "reached matched pos ns (i # j # p) =
     (i < length ns \<and>
      (case ns ! i of
         Element tag attrs kids \<Rightarrow>
           \<not> (tag = ''li'' \<and> matched (pos @ [i])) \<and> reached matched (pos @ [i]) kids (j # p)
       | Text t \<Rightarrow> False))"

text \<open>
  Where the element (or, below a list item that was matched, its clone) is after the
  round: the children of the outermost matched list item above it are now the children
  of the new \<open>p\<close>, the only child of the list item.
\<close>

fun pathAfter :: "(nat list \<Rightarrow> bool) \<Rightarrow> nat list \<Rightarrow> node list \<Rightarrow> nat list \<Rightarrow> nat list" where
  "pathAfter matched pos ns [] = []"
| "pathAfter matched pos ns [i] = [i]"
| "pathAfter matched pos ns (i # j # p) =
     (if i < length ns then
        (case ns ! i of
           Element tag attrs kids \<Rightarrow>
             if tag = ''li'' \<and> matched (pos @ [i]) then i # 0 # j # p
             else i # pathAfter matched (pos @ [i]) kids (j # p)
         | Text t \<Rightarrow> i # j # p)
      else i # j # p)"

text \<open>
  The round of a selector appends to the element at \<open>p\<close> (with tag \<open>tag\<close>) when the
  selector is not one of the three that are skipped, the element is returned by
  \<open>querySelectorAll\<close> and still in the document, and it is not an image with the
  class \<open>image-grid\<close> on itself or on an ancestor.
\<close>

definition skippedSelector :: "string \<Rightarrow> bool" where
  "skippedSelector selector =
     (selector = ''pre'' \<or> selector = ''code'' \<or> selector = ''pre code'')"

definition roundApplies :: "dom_env \<Rightarrow> string \<Rightarrow> node list \<Rightarrow> nat list \<Rightarrow> string \<Rightarrow> bool" where
  "roundApplies env selector doc p tag =
     (\<not> skippedSelector selector
      \<and> matchesSelector env selector doc p
      \<and> reached (matchesSelector env selector doc) [] doc p
      \<and> \<not> (tag = ''img'' \<and> inImageGrid doc p))"

definition roundPath :: "dom_env \<Rightarrow> string \<Rightarrow> node list \<Rightarrow> nat list \<Rightarrow> nat list" where
  "roundPath env selector doc p =
     (if skippedSelector selector then p
      else pathAfter (matchesSelector env selector doc) [] doc p)"

text \<open>
  What a round appends: \<open>; \<close> and the declarations of the selector, or those of
  \<open>li\<close> for a list item.
\<close>

definition roundText :: "(string \<times> string) list \<Rightarrow> string \<Rightarrow> string \<Rightarrow> string" where
  "roundText style selector tag =
     ''; '' @ jsString (map_of style (if tag = ''li'' then ''li'' else selector))"

text \<open>
  The rounds of the selectors \<open>keys\<close> in a row, from the document \<open>doc\<close>: where the
  element is at the end, and the text appended to its inline style, round after round.
\<close>

fun runPath ::
  "dom_env \<Rightarrow> (string \<times> string) list \<Rightarrow> string list \<Rightarrow> node list \<Rightarrow> nat list \<Rightarrow> nat list" where
  "runPath env style [] doc p = p"
| "runPath env style (selector # keys) doc p =
     runPath env style keys (applySelector env style selector doc) (roundPath env selector doc p)"

fun runAppended ::
  "dom_env \<Rightarrow> (string \<times> string) list \<Rightarrow> string \<Rightarrow> string list \<Rightarrow> node list \<Rightarrow> nat list \<Rightarrow> string" where
  "runAppended env style tag [] doc p = []"
| "runAppended env style tag (selector # keys) doc p =
     (if roundApplies env selector doc p tag then roundText style selector tag else [])
     @ runAppended env style tag keys (applySelector env style selector doc)
         (roundPath env selector doc p)"

section \<open>Example documents and rule sets\<close>

text \<open>
  A selector matcher for type selectors only (the element's name is the selector), a
  serializer that writes tags, attributes and text as they are, and a browser that
  parses three fixed strings; they serve as examples.
\<close>

definition matchesTypeSelector :: "string \<Rightarrow> node list \<Rightarrow> nat list \<Rightarrow> bool" where
  "matchesTypeSelector selector body pos =
     (case nodeAt body pos of Some (Element tag attrs kids) \<Rightarrow> tag = selector | _ \<Rightarrow> False)"

fun serializeNode :: "node \<Rightarrow> string" where
  \<open>serializeNode (Text t) = t\<close>
| \<open>serializeNode (Element tag attrs kids) =
     ''<'' @ tag @ concat (map (\<lambda>(k, x). '' '' @ k @ ''="'' @ x @ ''"'') attrs) @ ''>''
     @ concat (map serializeNode kids) @ ''</'' @ tag @ ''>''\<close>

definition redParagraph :: "node list" where
  "redParagraph = [Element ''p'' [(''style'', ''color:red'')] [Text ''hello'']]"

definition redPre :: "node list" where
  "redPre = [Element ''pre'' [(''style'', ''color:red'')] [Element ''code'' [] [Text ''x'']]]"

definition redParagraphAndList :: "node list" where
  "redParagraphAndList =
     [Element ''p'' [(''style'', ''color:red'')] [Text ''hello''],
      Element ''ul'' []
        [Element ''li'' [] [Element ''strong'' [] [Text ''a''], Text ''b'']]]"

definition exampleDom :: dom_env where
  \<open>exampleDom =
     \<lparr>parseFromString =
        (\<lambda>html. if html = ''<p style="color:red">hello</p>'' then redParagraph
                 else if html = ''<pre style="color:red"><code>x</code></pre>'' then redPre
                 else if html = ''<p style="color:red">hello</p><ul><li><strong>a</strong>b</li></ul>''
                 then redParagraphAndList
                 else []),
      matchesSelector = matchesTypeSelector,
      outerHTML = serializeNode\<rparr>\<close>

definition listRules :: "(string \<times> string) list" where
  "listRules =
     [(''container'', ''margin:0''), (''li'', ''margin:4px''), (''p'', ''font-size:14px''),
      (''strong'', ''color:blue''), (''pre'', ''font-size:14px'')]"

definition exampleStyles :: style_catalog where
  "exampleStyles =
     (\<lambda>name. if name = ''wechat-default''
              then Some \<lparr>styles = [(''container'', ''margin:0''), (''p'', ''font-size:14px''),
                                    (''pre'', ''font-size:14px'')]\<rparr>
              else if name = ''wechat-list'' then Some \<lparr>styles = listRules\<rparr>
              else None)"

section \<open>The HTML template (CopyDocument2MpPlugin.expandHtmlTemplate)\<close>

text \<open>
  \<open>GetSubstitution\<close> for a string pattern (no captures): in the replacement text,
  \<open>$$\<close> stands for a dollar sign, \<open>$&\<close> for the matched text, \<open>$`\<close> for the text
  before the match and \<open>$'\<close> for the text after it; any other dollar sign is copied.
\<close>

fun getSubstitution :: "string \<Rightarrow> string \<Rightarrow> string \<Rightarrow> string \<Rightarrow> string" where
  "getSubstitution matched pre post [] = []"
| "getSubstitution matched pre post [c] = [c]"
| "getSubstitution matched pre post (c # d # cs) =
     (if c = CHR ''$'' then
        (if d = CHR ''$'' then CHR ''$'' # getSubstitution matched pre post cs
         else if d = CHR ''&'' then matched @ getSubstitution matched pre post cs
         else if d = CHR 0x60 then pre @ getSubstitution matched pre post cs
         else if d = CHR 0x27 then post @ getSubstitution matched pre post cs
         else c # getSubstitution matched pre post (d # cs))
      else c # getSubstitution matched pre post (d # cs))"

text \<open>
  The text before and after the first occurrence of a pattern in a string, found by
  trying each position from the left.
\<close>

fun splitAtFirst :: "string \<Rightarrow> string \<Rightarrow> (string \<times> string) option" where
  "splitAtFirst p [] = (if p = [] then Some ([], []) else None)"
| "splitAtFirst p (c # cs) =
     (if startsWith (c # cs) p then Some ([], drop (length p) (c # cs))
      else map_option (\<lambda>(pre, post). (c # pre, post)) (splitAtFirst p cs))"

text \<open>
  \<open>s.replace(pattern, replacement)\<close> with a string pattern: the first occurrence
  only is replaced.
\<close>

definition replaceString :: "string \<Rightarrow> string \<Rightarrow> string \<Rightarrow> string" where
  "replaceString s p r =
     (case splitAtFirst p s of
        None \<Rightarrow> s
      | Some (pre, post) \<Rightarrow> pre @ getSubstitution p pre post r @ post)"

text \<open>The pieces of \<open>DEFAULT_HTML_TEMPLATE\<close> around its four placeholders.\<close>

definition templateHead :: string where
  \<open>templateHead =
     ''<!DOCTYPE html>'' @ [CHR 0x0A] @ ''<html>'' @ [CHR 0x0A] @ ''<head>'' @ [CHR 0x0A]
     @ ''  <meta charset="utf-8">'' @ [CHR 0x0A] @ ''  <title>''\<close>

definition templateAfterTitle :: string where
  "templateAfterTitle = ''</title>'' @ [CHR 0x0A] @ ''  ''"

definition mermaidLine :: string where
  "mermaidLine = ''<style>'' @ [CHR 0x0A] @ ''    ${MERMAID_STYLESHEET}'' @ [CHR 0x0A]"

definition templateBeforeStylesheet :: string where
  "templateBeforeStylesheet = ''    ''"

definition templateAfterStylesheet :: string where
  "templateAfterStylesheet =
     [CHR 0x0A] @ ''  </style>'' @ [CHR 0x0A] @ ''</head>'' @ [CHR 0x0A] @ ''<body>'' @ [CHR 0x0A]"

definition templateTail :: string where
  "templateTail = [CHR 0x0A] @ ''</body>'' @ [CHR 0x0A] @ ''</html>'' @ [CHR 0x0A]"

definition DEFAULT_HTML_TEMPLATE :: string where
  "DEFAULT_HTML_TEMPLATE =
     templateHead @ ''${title}'' @ templateAfterTitle @ mermaidLine @ templateBeforeStylesheet
     @ ''${stylesheet}'' @ templateAfterStylesheet @ ''${body}'' @ templateTail"

text \<open>
  \<open>expandHtmlTemplate\<close>: three calls of \<open>replace\<close> in a row; \<open>styleSheet\<close> is the
  setting of that name.
\<close>

definition expandHtmlTemplate :: "string \<Rightarrow> string \<Rightarrow> string \<Rightarrow> string" where
  "expandHtmlTemplate styleSheet html title =
     replaceString
       (replaceString (replaceString DEFAULT_HTML_TEMPLATE ''${title}'' title) ''${body}'' html)
       ''${stylesheet}'' styleSheet"

text \<open>
  The texts that take the place of \<open>${title}\<close>, \<open>${body}\<close> and
  \<open>${stylesheet}\<close> when the placeholders replaced are those of the template: the
  replacement text with its dollar patterns expanded against the document as it is at
  that call.
\<close>

definition insertedTitle :: "string \<Rightarrow> string" where
  "insertedTitle title =
     getSubstitution ''${title}'' templateHead
       (templateAfterTitle @ mermaidLine @ templateBeforeStylesheet
        @ ''${stylesheet}'' @ templateAfterStylesheet @ ''${body}'' @ templateTail) title"

definition insertedBody :: "string \<Rightarrow> string \<Rightarrow> string" where
  "insertedBody html title =
     getSubstitution ''${body}''
       (templateHead @ insertedTitle title @ templateAfterTitle @ mermaidLine
        @ templateBeforeStylesheet @ ''${stylesheet}'' @ templateAfterStylesheet)
       templateTail html"

definition insertedStylesheet :: "string \<Rightarrow> string \<Rightarrow> string \<Rightarrow> string" where
  "insertedStylesheet styleSheet html title =
     getSubstitution ''${stylesheet}''
       (templateHead @ insertedTitle title @ templateAfterTitle @ mermaidLine
        @ templateBeforeStylesheet)
       (templateAfterStylesheet @ insertedBody html title @ templateTail) styleSheet"

text \<open>A pattern occurs in a string.\<close>

definition occursIn :: "string \<Rightarrow> string \<Rightarrow> bool" where
  "occursIn p s = (splitAtFirst p s \<noteq> None)"
section \<open>Regular expressions\<close>

text \<open>
  The fragment of the regular expressions of JavaScript that the list normalizer uses:
  character classes, sequence, alternation, greedy and lazy repetition, capture groups,
  and the line anchors of the \<open>m\<close> flag.
\<close>

datatype char_class = Literal char | Whitespace | Digit | AnyChar | NoneOf "char list"

datatype regex =
    Atom char_class
  | Seq regex regex
  | Alt regex regex
  | Star bool regex
  | Plus bool regex
  | Group nat regex
  | LineStart
  | LineEnd

text \<open>
  \<open>\s\<close> (white space and line terminators among the characters of one byte),
  \<open>\d\<close>, and the dot, which matches anything but a line terminator.
\<close>

definition isWhitespace :: "char \<Rightarrow> bool" where
  "isWhitespace c =
     (c \<in> set [CHR 0x09, CHR 0x0A, CHR 0x0B, CHR 0x0C, CHR 0x0D, CHR '' '', CHR 0xA0])"

definition isDigit :: "char \<Rightarrow> bool" where
  "isDigit c = (c \<in> set ''0123456789'')"

fun classMatches :: "char_class \<Rightarrow> char \<Rightarrow> bool" where
  "classMatches (Literal x) c = (c = x)"
| "classMatches Whitespace c = isWhitespace c"
| "classMatches Digit c = isDigit c"
| "classMatches AnyChar c = (\<not> isLineTerminator c)"
| "classMatches (NoneOf xs) c = (c \<notin> set xs)"

text \<open>
  A state of the matcher: the position reached and the captures made, the latest
  first, each a group number with the start and end of its text.
\<close>

type_synonym match_state = "nat \<times> (nat \<times> nat \<times> nat) list"

text \<open>
  The backtracking matcher as a list of successes: \<open>rmatch r input st\<close> lists the
  states in which \<open>r\<close> can end when it starts in \<open>st\<close>, in the order in which
  backtracking tries them, so the first state that lets the rest of the pattern match
  is the one the engine takes. A greedy repetition tries one more round before it tries
  to stop, a lazy one stops first. A round of a repetition has to consume input, so
  the rounds left are bounded by the input left, which is the first argument of
  \<open>rstar\<close>.
\<close>

fun rmatch :: "regex \<Rightarrow> string \<Rightarrow> match_state \<Rightarrow> match_state list"
  and rstar :: "nat \<Rightarrow> bool \<Rightarrow> regex \<Rightarrow> string \<Rightarrow> match_state \<Rightarrow> match_state list"
  where
  "rmatch (Atom cls) input (i, caps) =
     (if i < length input \<and> classMatches cls (input ! i) then [(Suc i, caps)] else [])"
| "rmatch (Seq r1 r2) input st = concat (map (rmatch r2 input) (rmatch r1 input st))"
| "rmatch (Alt r1 r2) input st = rmatch r1 input st @ rmatch r2 input st"
| "rmatch (Star greedy r) input (i, caps) = rstar (length input - i) greedy r input (i, caps)"
| "rmatch (Plus greedy r) input (i, caps) =
     concat (map (\<lambda>(j, caps'). rstar (length input - j) greedy r input (j, caps'))
               (rmatch r input (i, caps)))"
| "rmatch (Group n r) input (i, caps) =
     map (\<lambda>(j, caps'). (j, (n, i, j) # caps')) (rmatch r input (i, caps))"
| "rmatch LineStart input (i, caps) =
     (if i = 0 \<or> isLineTerminator (input ! (i - 1)) then [(i, caps)] else [])"
| "rmatch LineEnd input (i, caps) =
     (if i = length input \<or> isLineTerminator (input ! i) then [(i, caps)] else [])"
| "rstar 0 greedy r input st = [st]"
| "rstar (Suc rounds) greedy r input (i, caps) =
     (let more = concat (map (rstar rounds greedy r input)
                   (filter (\<lambda>(j, caps'). i < j) (rmatch r input (i, caps))))
      in if greedy then more @ [(i, caps)] else (i, caps) # more)"

text \<open>
  The first match at or after a position: each start position is tried in turn, up to
  the end of the input. The result is the start of the match and its final state.
\<close>

fun firstMatch :: "nat \<Rightarrow> regex \<Rightarrow> string \<Rightarrow> nat \<Rightarrow> (nat \<times> match_state) option" where
  "firstMatch 0 r input start = None"
| "firstMatch (Suc tries) r input start =
     (case rmatch r input (start, []) of
        st # other \<Rightarrow> Some (start, st)
      | [] \<Rightarrow> firstMatch tries r input (Suc start))"

text \<open>
  A replacement text with its references to groups resolved: literal text and the text
  of a group (empty when the group took no part in the match).
\<close>

datatype replacement_item = Lit string | Ref nat

fun substring_between :: "string \<Rightarrow> nat \<Rightarrow> nat \<Rightarrow> string" where
  "substring_between s i j = take (j - i) (drop i s)"

fun expandItem :: "string \<Rightarrow> (nat \<times> nat \<times> nat) list \<Rightarrow> replacement_item \<Rightarrow> string" where
  "expandItem input caps (Lit s) = s"
| "expandItem input caps (Ref n) =
     (case map_of caps n of None \<Rightarrow> [] | Some (i, j) \<Rightarrow> substring_between input i j)"

text \<open>
  \<open>input.replace(r, replacement)\<close> for a regular expression with the \<open>g\<close> flag:
  the matches are found from left to right, each search starting where the last match
  ended (one further after an empty match), and each match is replaced. \<open>copied\<close> is
  the position up to which the input has been written to the result.
\<close>

fun replaceMatches ::
  "nat \<Rightarrow> regex \<Rightarrow> replacement_item list \<Rightarrow> string \<Rightarrow> nat \<Rightarrow> nat \<Rightarrow> string" where
  "replaceMatches 0 r replacement input lastIndex copied = drop copied input"
| "replaceMatches (Suc rounds) r replacement input lastIndex copied =
     (if length input < lastIndex then drop copied input
      else
        (case firstMatch (Suc (length input - lastIndex)) r input lastIndex of
           None \<Rightarrow> drop copied input
         | Some (start, (stop, caps)) \<Rightarrow>
             substring_between input copied start
             @ concat (map (expandItem input caps) replacement)
             @ replaceMatches rounds r replacement input
                 (if stop = start then Suc stop else stop) stop))"

definition replaceAllMatches :: "regex \<Rightarrow> replacement_item list \<Rightarrow> string \<Rightarrow> string" where
  "replaceAllMatches r replacement input =
     replaceMatches (Suc (Suc (length input))) r replacement input 0 0"

section \<open>The list normalizer (CopyDocument2MpPlugin.preprocessMarkdownList)\<close>

definition seqs :: "regex list \<Rightarrow> regex" where
  "seqs rs = foldr Seq (butlast rs) (last rs)"

text \<open>\<open>\s*(?:\d+\.|-|\*)\s+\<close>, the start of a list item.\<close>

definition listMarker :: regex where
  "listMarker =
     seqs [Star True (Atom Whitespace),
           Alt (Seq (Plus True (Atom Digit)) (Atom (Literal (CHR ''.''))))
               (Alt (Atom (Literal (CHR ''-''))) (Atom (Literal (CHR ''*'')))),
           Plus True (Atom Whitespace)]"

text \<open>\<open>/^(\s*(?:\d+\.|-|\*)\s+[^:\n]+)\n\s*:\s*(.+?)$/gm\<close>\<close>

definition colonOnNextLine :: regex where
  "colonOnNextLine =
     seqs [LineStart,
           Group 1 (Seq listMarker (Plus True (Atom (NoneOf [CHR '':'', CHR 0x0A])))),
           Atom (Literal (CHR 0x0A)), Star True (Atom Whitespace), Atom (Literal (CHR '':'')),
           Star True (Atom Whitespace), Group 2 (Plus False (Atom AnyChar)), LineEnd]"

text \<open>\<open>/^(\s*(?:\d+\.|-|\*)\s+.+?:)\s*\n\s+(.+?)$/gm\<close>\<close>

definition textAfterColon :: regex where
  "textAfterColon =
     seqs [LineStart,
           Group 1 (seqs [listMarker, Plus False (Atom AnyChar), Atom (Literal (CHR '':''))]),
           Star True (Atom Whitespace), Atom (Literal (CHR 0x0A)), Plus True (Atom Whitespace),
           Group 2 (Plus False (Atom AnyChar)), LineEnd]"

text \<open>\<open>/^(\s*(?:\d+\.|-|\*)\s+[^:\n]+)\n:\s*(.+?)$/gm\<close>\<close>

definition colonAtLineStart :: regex where
  "colonAtLineStart =
     seqs [LineStart,
           Group 1 (Seq listMarker (Plus True (Atom (NoneOf [CHR '':'', CHR 0x0A])))),
           Atom (Literal (CHR 0x0A)), Atom (Literal (CHR '':'')),
           Star True (Atom Whitespace), Group 2 (Plus False (Atom AnyChar)), LineEnd]"

text \<open>\<open>/^(\s*(?:\d+\.|-|\*)\s+.+?)\n\n\s+(.+?)$/gm\<close>\<close>

definition textAfterBlankLine :: regex where
  "textAfterBlankLine =
     seqs [LineStart,
           Group 1 (Seq listMarker (Plus False (Atom AnyChar))),
           Atom (Literal (CHR 0x0A)), Atom (Literal (CHR 0x0A)), Plus True (Atom Whitespace),
           Group 2 (Plus False (Atom AnyChar)), LineEnd]"

text \<open>
  \<open>preprocessMarkdownList\<close>: the four replacements in order, with the replacement
  texts \<open>$1: $2\<close>, \<open>$1 $2\<close>, \<open>$1: $2\<close> and \<open>$1 $2\<close>.
\<close>

definition preprocessMarkdownList :: "string \<Rightarrow> string" where
  "preprocessMarkdownList content =
     replaceAllMatches textAfterBlankLine [Ref 1, Lit '' '', Ref 2]
       (replaceAllMatches colonAtLineStart [Ref 1, Lit '': '', Ref 2]
         (replaceAllMatches textAfterColon [Ref 1, Lit '' '', Ref 2]
           (replaceAllMatches colonOnNextLine [Ref 1, Lit '': '', Ref 2] content)))"

section \<open>Mime types: the code against the specification\<close>

lemma lastIndexOf_scan_absent:
  "c \<notin> set s \<Longrightarrow> lastIndexOf_scan s c i found = found"
  by (induction s arbitrary: i found) auto

lemma lastIndexOf_scan_last:
  "c \<notin> set ys \<Longrightarrow> lastIndexOf_scan (xs @ c # ys) c i found = int i + int (length xs)"
  by (induction xs arbitrary: i found) (auto simp: lastIndexOf_scan_absent)

lemma slice_after_last:
  "slice s (lastIndexOf s c + 1) = rev (takeWhile (\<lambda>x. x \<noteq> c) (rev s))"
proof (cases "c \<in> set s")
  case False
  then have "lastIndexOf s c = - 1"
    by (simp add: lastIndexOf_def lastIndexOf_scan_absent)
  moreover have "takeWhile (\<lambda>x. x \<noteq> c) (rev s) = rev s"
    using False by (auto simp: takeWhile_eq_all_conv)
  ultimately show ?thesis
    by (simp add: slice_def del: takeWhile_eq_all_conv)
next
  case True
  then obtain xs ys where s: "s = xs @ c # ys" and ys: "c \<notin> set ys"
    by (auto dest: split_list_last)
  have "lastIndexOf s c = int (length xs)"
    using ys by (simp add: s lastIndexOf_def lastIndexOf_scan_last)
  moreover have "takeWhile (\<lambda>x. x \<noteq> c) (rev s) = rev ys"
    using ys by (auto simp: s takeWhile_tail)
  moreover have "nat (int (length xs) + 1) = Suc (length xs)"
    by simp
  ultimately show ?thesis
    by (simp add: slice_def s Let_def)
qed

lemma lastIndexOf_zero_iff:
  "lastIndexOf s c + 1 \<noteq> 0 \<longleftrightarrow> c \<in> set s"
proof (cases "c \<in> set s")
  case False
  then show ?thesis
    by (simp add: lastIndexOf_def lastIndexOf_scan_absent)
next
  case True
  then obtain xs ys where s: "s = xs @ c # ys" and ys: "c \<notin> set ys"
    by (auto dest: split_list_last)
  have "lastIndexOf s c = int (length xs)"
    using ys by (simp add: s lastIndexOf_def lastIndexOf_scan_last)
  then show ?thesis using True by simp
qed

lemma getExtension_spec: "getExtension p = specExtension p"
proof -
  define seg where "seg = lastSegment p"
  have seg: "slice p (lastIndexOf p (CHR ''/'') + 1) = seg"
    unfolding seg_def lastSegment_def by (rule slice_after_last)
  have ext: "slice seg (lastIndexOf seg (CHR ''.'') + 1) = afterLastDot seg"
    unfolding afterLastDot_def by (rule slice_after_last)
  have dot: "lastIndexOf seg (CHR ''.'') + 1 \<noteq> 0 \<longleftrightarrow> CHR ''.'' \<in> set seg"
    by (rule lastIndexOf_zero_iff)
  have none: "slice seg (int (length seg)) = []"
    by (simp add: slice_def)
  have "getExtension p =
      toLowerCase (slice seg (if lastIndexOf seg (CHR ''.'') + 1 \<noteq> 0
        then lastIndexOf seg (CHR ''.'') + 1 else int (length seg)))"
    unfolding getExtension_def Let_def seg ..
  also have "\<dots> = (if CHR ''.'' \<in> set seg then toLowerCase (afterLastDot seg) else [])"
    using dot ext none by (simp add: toLowerCase_def)
  finally show ?thesis
    by (simp add: specExtension_def seg_def)
qed

text \<open>
  Claim C8. For every file path, \<open>guessMimeType\<close> is the mime type the specification
  describes: the extension is the lower-cased text after the last \<open>.\<close> of the last
  \<open>/\<close>-delimited segment; \<open>svg\<close> gives \<open>image/svg+xml\<close>, \<open>jpg\<close> gives
  \<open>image/jpeg\<close>, any other extension \<open>ext\<close> gives \<open>image/ext\<close>, and a segment with no
  extension gives \<open>image/png\<close>.
\<close>

theorem guessMimeType_spec: "guessMimeType filePath = specMimeType filePath"
  by (simp add: guessMimeType_def specMimeType_def getExtension_spec mimeMap_def Let_def)

theorem guessMimeType_spec_witness:
  "guessMimeType ''attachments/v1.2/Diagram.SVG'' = ''image/svg+xml''"
  using guessMimeType_spec [of "''attachments/v1.2/Diagram.SVG''"]
  by (simp add: specMimeType_def specExtension_def lastSegment_def afterLastDot_def toLowerCase_def lowerChar_def)

section \<open>The completion detector\<close>

lemma untilRendered_no_blocks_waits:
  "ppIsProcessing g \<Longrightarrow> ppLastBlockDate g \<noteq> 0 \<Longrightarrow> untilRendered fuel clock noBlocks k g = None"
  by (induction fuel arbitrary: k) (simp_all add: noBlocks_def)

text \<open>
  Claim C3 on a document that produces zero blocks (for instance an empty note).
  \<open>doCopy\<close> stores the current time as the last block date, not the value 0 that
  \<open>untilRendered\<close> tests for, and sets \<open>ppIsProcessing\<close>, which only the
  post-processor of a block clears. No block ever runs, so the loop condition stays
  true and the test \<open>ppLastBlockDate === 0\<close> stays false: whatever the number of
  polls, \<open>untilRendered\<close> is still waiting, and the document is never reported
  settled.
\<close>

theorem untilRendered_zero_blocks_waits:
  "doCopy_start 1700000000000 idleGlobals
     = \<lparr>copyIsRunning = True, ppIsProcessing = True, ppLastBlockDate = 1700000000000\<rparr>
   \<and> untilRendered fuel (pollClock 1700000000000) noBlocks 0
        (doCopy_start 1700000000000 idleGlobals) = None"
  by (simp add: untilRendered_no_blocks_waits doCopy_start_def idleGlobals_def)

section \<open>Mutual exclusion of copies\<close>

lemma smartCopyCheckCallback_rejects:
  "copyIsRunning g \<Longrightarrow>
   smartCopyCheckCallback now activeView somethingSelected checking g = (False, None, g)"
  by (simp add: smartCopyCheckCallback_def)

text \<open>
  Claim C4 at the file-menu entry point. While a copy is in flight (\<open>copyIsRunning\<close>
  is true, a block was last seen at time 1000 and none is being processed), the command
  is rejected and leaves the globals alone, but a click on the file-menu item for a
  Markdown file starts a second \<open>doCopy\<close>, which overwrites the detector state of the
  copy in flight; when the second copy ends, its \<open>finally\<close> block clears the flag
  although the first copy may still be running.
\<close>

theorem copyFromFile_ignores_copyIsRunning:
  "smartCopyCheckCallback 2000 (Some v) sel False
     \<lparr>copyIsRunning = True, ppIsProcessing = False, ppLastBlockDate = 1000\<rparr>
   = (False, None, \<lparr>copyIsRunning = True, ppIsProcessing = False, ppLastBlockDate = 1000\<rparr>)
   \<and> copyFromFile 2000 (TFile ''notes/a.md'' ''a.md'' ''md'') ''text''
     \<lparr>copyIsRunning = True, ppIsProcessing = False, ppLastBlockDate = 1000\<rparr>
   = (Some \<lparr>markdown = ''text'', path = ''notes/a.md'', name = ''a.md'', isFullDocument = True\<rparr>,
      \<lparr>copyIsRunning = True, ppIsProcessing = True, ppLastBlockDate = 2000\<rparr>)
   \<and> doCopy_finally \<lparr>copyIsRunning = True, ppIsProcessing = True, ppLastBlockDate = 2000\<rparr>
   = \<lparr>copyIsRunning = False, ppIsProcessing = True, ppLastBlockDate = 2000\<rparr>"
  by (simp add: smartCopyCheckCallback_def copyFromFile_def doCopy_start_def doCopy_finally_def
      toLowerCase_def lowerChar_def)

section \<open>Embedding images twice\<close>

lemma base64Char_in: "base64Char i \<in> set base64Alphabet"
  unfolding base64Char_def by (rule nth_mem) (simp add: base64Alphabet_def)

lemma base64Char_not_percent: "base64Char i \<noteq> CHR ''%''"
proof
  assume "base64Char i = CHR ''%''"
  with base64Char_in [of i] have "CHR ''%'' \<in> set base64Alphabet" by simp
  then show False by (simp add: base64Alphabet_def)
qed

lemma base64_no_percent: "CHR ''%'' \<notin> set (arrayBufferToBase64 bs)"
  by (induction bs rule: arrayBufferToBase64.induct)
     (simp_all add: base64Char_not_percent base64Char_not_percent [symmetric])

lemma startsWith_append: "startsWith (p @ s) p"
  by (induction p) auto

lemma startsWith_iff: "startsWith s p \<longleftrightarrow> (\<exists>r. s = p @ r)"
  by (induction s p rule: startsWith.induct) auto

lemma startsWith_sep:
  "c \<notin> set p \<Longrightarrow> startsWith (m @ c # r) p \<Longrightarrow> startsWith m p"
  by (induction m p rule: startsWith.induct) auto

lemma imageToDataUri_cases:
  "\<exists>u. imageToDataUri b url = Some (imageLatency b url, Fulfilled u) \<and>
       (u = url \<or> u = ''data:,'' \<or> (\<exists>p. u = ''data:image/png;base64,'' @ p))"
  by (cases "imageEvent b url"; cases "canvasExport b url")
     (auto simp: imageToDataUri_def image_onload_def image_onerror_def)

lemma setAttribute_idem: "setAttribute n x (setAttribute n x attrs) = setAttribute n x attrs"
  by (induction attrs) auto

lemma imgSrc_setAttribute: "imgSrc b (setAttribute ''src'' x attrs) = resolveUrl b x"
  by (induction attrs) (auto simp: imgSrc_def getAttribute_def)


lemma embeddedSource_unneeded: "\<not> needsEmbedding opts s \<Longrightarrow> embeddedSource b v opts s = s"
  by (simp add: embeddedSource_def)

lemma needsEmbedding_png: "\<not> needsEmbedding opts (''data:image/png;base64,'' @ p)"
  by (simp add: needsEmbedding_def)

lemma needsEmbedding_nopixels: "\<not> needsEmbedding opts ''data:,''"
  by (simp add: needsEmbedding_def)

lemma decodeURI_data:
  "decodeURI b (''data:image/svg+xml;base64,'' @ arrayBufferToBase64 bytes)
   = Inr (''data:image/svg+xml;base64,'' @ arrayBufferToBase64 bytes)"
  by (simp add: decodeURI_def base64_no_percent)

lemma data_not_local: "\<not> startsWith (CHR ''d'' # s) (vaultLocalUriPrefix v)"
  by (simp add: vaultLocalUriPrefix_def)

lemma replaceImageSource_svg_data:
  "replaceImageSource b v opts (''data:image/svg+xml;base64,'' @ arrayBufferToBase64 bytes)
   = imageToDataUri b (''data:image/svg+xml;base64,'' @ arrayBufferToBase64 bytes)"
  unfolding replaceImageSource_def decodeURI_data
  using data_not_local by simp

lemma imageToDataUri_needs:
  "imageToDataUri b url = Some (t, Fulfilled u) \<Longrightarrow> needsEmbedding opts u \<Longrightarrow> u = url"
  by (cases "imageEvent b url"; cases "canvasExport b url")
     (auto simp: imageToDataUri_def image_onload_def image_onerror_def needsEmbedding_def)

lemma replaceImageSource_fallback:
  "fallsBackOn b v u \<Longrightarrow> replaceImageSource b v opts u = Some (imageLatency b u, Fulfilled u)"
  by (cases "imageEvent b u"; cases "canvasExport b u")
     (auto simp: fallsBackOn_def outsideVault_def rasterizationFails_def replaceImageSource_def
        imageToDataUri_def image_onload_def image_onerror_def split: sum.splits)

lemma replaceImageSource_fixpoint:
  assumes P: "replaceImageSource b v opts s = Some (t, Fulfilled u)"
    and H: "\<not> rasterizedAgain b v opts s"
    and need': "needsEmbedding opts u"
  shows "\<exists>t'. replaceImageSource b v opts u = Some (t', Fulfilled u)"
proof (cases "decodeURI b s")
  case (Inl e)
  with P show ?thesis by (simp add: replaceImageSource_def)
next
  case (Inr p)
  show ?thesis
  proof (cases "startsWith p (vaultLocalUriPrefix v)")
    case False
    with Inr have eq: "replaceImageSource b v opts s = imageToDataUri b s"
      by (simp add: replaceImageSource_def)
    from P eq need' have "u = s"
      by (auto dest: imageToDataUri_needs)
    with P show ?thesis by blast
  next
    case True
    define q where "q = stripQueryAndHash (substring p (int (length (vaultLocalUriPrefix v)) + 1))"
    show ?thesis
    proof (cases "decodeURI b q")
      case (Inl e)
      with P Inr True show ?thesis by (simp add: replaceImageSource_def q_def)
    next
      case fp: (Inr fp)
      define mime where "mime = guessMimeType fp"
      have mimeOf: "localStoreMimeType b v s = Some mime"
        using Inr True fp by (simp add: localStoreMimeType_def q_def mime_def)
      have R: "replaceImageSource b v opts s =
          awaitThen (readFromVault v fp mime)
            (\<lambda>data. if isSvg mime \<and> convertSvgToBitmap opts
                     then imageToDataUri b data else Some (0, Fulfilled data))"
        using Inr True fp by (simp add: replaceImageSource_def q_def mime_def)
      show ?thesis
      proof (cases "getAbstractFileByPath v fp")
        case None
        with P R show ?thesis by (simp add: readFromVault_def)
      next
        case (Some entry)
        show ?thesis
        proof (cases entry)
          case VaultFolder
          with Some P R show ?thesis by (simp add: readFromVault_def)
        next
          case (VaultFile bytes)
          define data where "data = ''data:'' @ mime @ '';base64,'' @ arrayBufferToBase64 bytes"
          have rd: "readFromVault v fp mime = Some (readLatency v fp, Fulfilled data)"
            using Some VaultFile by (simp add: readFromVault_def data_def)
          have dataOf: "localStoreData b v s = Some data"
            using Inr True fp rd by (simp add: localStoreData_def q_def mime_def)
          show ?thesis
          proof (cases "isSvg mime \<and> convertSvgToBitmap opts")
            case True
            then have m: "mime = ''image/svg+xml''" by (simp add: isSvg_def)
            have dataeq: "data = ''data:image/svg+xml;base64,'' @ arrayBufferToBase64 bytes"
              by (simp add: data_def m)
            obtain u0 where u0: "imageToDataUri b data = Some (imageLatency b data, Fulfilled u0)"
              using imageToDataUri_cases [of b data] by blast
            from P R rd True u0 have "u = u0" by simp
            with u0 need' have "u = data"
              by (auto dest: imageToDataUri_needs)
            moreover have "replaceImageSource b v opts data = imageToDataUri b data"
              unfolding dataeq by (rule replaceImageSource_svg_data)
            ultimately show ?thesis using u0 \<open>u = u0\<close> by simp
          next
            case False
            with P R rd have ud: "u = data" by simp
            with need' have sw: "startsWith data ''data:image/svg+xml''" and conv: "convertSvgToBitmap opts"
              by (auto simp: needsEmbedding_def data_def)
            from conv False have "mime \<noteq> ''image/svg+xml''" by (simp add: isSvg_def)
            moreover from sw have "startsWith (mime @ CHR '';'' # ''base64,'' @ arrayBufferToBase64 bytes) ''image/svg+xml''"
              by (simp add: data_def)
            then have "startsWith mime ''image/svg+xml''"
              by (rule startsWith_sep [rotated]) simp
            ultimately have "svgLikeMimeType mime" by (simp add: svgLikeMimeType_def)
            with H conv mimeOf dataOf have "fallsBackOn b v data"
              by (simp add: rasterizedAgain_def)
            then have "replaceImageSource b v opts data = Some (imageLatency b data, Fulfilled data)"
              by (rule replaceImageSource_fallback)
            with ud show ?thesis by simp
          qed
        qed
      qed
    qed
  qed
qed


lemma allFulfilled_Some_iff:
  "(\<exists>t vs. allFulfilled ps = Some (t, vs)) \<longleftrightarrow> (\<forall>p\<in>set ps. \<exists>t v. p = Some (t, Fulfilled v))"
  by (induction ps rule: allFulfilled.induct) (auto split: option.splits)

lemma firstRejection_None_iff:
  "firstRejection ps = None \<longleftrightarrow> (\<forall>p\<in>set ps. rejection p = None)"
  by (induction ps) (auto split: option.splits)

lemma rejection_fulfilled: "rejection (Some (t, Fulfilled v)) = None"
  by simp

lemma Promise_all_fulfilled_iff:
  "(\<exists>t vs. Promise_all ps = Some (t, Fulfilled vs)) \<longleftrightarrow> (\<forall>p\<in>set ps. \<exists>t v. p = Some (t, Fulfilled v))"
proof
  assume "\<exists>t vs. Promise_all ps = Some (t, Fulfilled vs)"
  then have "\<exists>t vs. allFulfilled ps = Some (t, vs)"
    by (auto simp: Promise_all_def split: option.splits)
  then show "\<forall>p\<in>set ps. \<exists>t v. p = Some (t, Fulfilled v)"
    by (simp add: allFulfilled_Some_iff)
next
  assume all: "\<forall>p\<in>set ps. \<exists>t v. p = Some (t, Fulfilled v)"
  then have "firstRejection ps = None"
    by (auto simp: firstRejection_None_iff)
  moreover from all obtain t vs where "allFulfilled ps = Some (t, vs)"
    using allFulfilled_Some_iff [of ps] by blast
  ultimately show "\<exists>t vs. Promise_all ps = Some (t, Fulfilled vs)"
    by (simp add: Promise_all_def)
qed

lemma imgSources_storeSources:
  "imgSources b (storeSources b opts f n)
   = map (\<lambda>s. if needsEmbedding opts s then resolveUrl b (f s) else s) (imgSources b n)"
proof (induction n)
  case (Element tag attrs kids)
  have "\<forall>k\<in>set kids. imgSources b (storeSources b opts f k)
      = map (\<lambda>s. if needsEmbedding opts s then resolveUrl b (f s) else s) (imgSources b k)"
    using Element by auto
  then have kids: "concat (map (imgSources b \<circ> storeSources b opts f) kids)
      = map (\<lambda>s. if needsEmbedding opts s then resolveUrl b (f s) else s)
          (concat (map (imgSources b) kids))"
    by (induction kids) auto
  then show ?case
    by (simp add: imgSrc_setAttribute)
next
  case (Text t)
  show ?case by simp
qed

lemma querySelectorAll_img_store:
  "querySelectorAll_img b (storeSourcesBelow b opts f n)
   = map (\<lambda>s. if needsEmbedding opts s then resolveUrl b (f s) else s) (querySelectorAll_img b n)"
proof (cases n)
  case (Element tag attrs kids)
  have "concat (map (imgSources b \<circ> storeSources b opts f) kids)
      = map (\<lambda>s. if needsEmbedding opts s then resolveUrl b (f s) else s)
          (concat (map (imgSources b) kids))"
    by (induction kids) (auto simp: imgSources_storeSources)
  then show ?thesis
    by (simp add: Element querySelectorAll_img_def storeSourcesBelow_def)
next
  case (Text t)
  then show ?thesis by (simp add: querySelectorAll_img_def storeSourcesBelow_def)
qed

lemma storeSources_twice:
  assumes "\<forall>s\<in>set (imgSources b n). needsEmbedding opts s \<longrightarrow>
      needsEmbedding opts (resolveUrl b (f s)) \<longrightarrow> f (resolveUrl b (f s)) = f s"
  shows "storeSources b opts f (storeSources b opts f n) = storeSources b opts f n"
  using assms
proof (induction n)
  case (Element tag attrs kids)
  have "\<forall>k\<in>set kids. storeSources b opts f (storeSources b opts f k) = storeSources b opts f k"
    using Element by auto
  then have kids: "map (storeSources b opts f \<circ> storeSources b opts f) kids
      = map (storeSources b opts f) kids"
    by (auto simp: map_eq_conv)
  show ?case
  proof (cases "tag = ''img'' \<and> needsEmbedding opts (imgSrc b attrs)")
    case True
    with Element.prems have ff: "needsEmbedding opts (resolveUrl b (f (imgSrc b attrs))) \<Longrightarrow>
        f (resolveUrl b (f (imgSrc b attrs))) = f (imgSrc b attrs)"
      by simp
    from True kids ff show ?thesis
      by (simp add: imgSrc_setAttribute setAttribute_idem)
  next
    case False
    with kids show ?thesis by auto
  qed
next
  case (Text t)
  show ?case by simp
qed

lemma storeSourcesBelow_twice:
  assumes "\<forall>s\<in>set (querySelectorAll_img b n). needsEmbedding opts s \<longrightarrow>
      needsEmbedding opts (resolveUrl b (f s)) \<longrightarrow> f (resolveUrl b (f s)) = f s"
  shows "storeSourcesBelow b opts f (storeSourcesBelow b opts f n) = storeSourcesBelow b opts f n"
proof (cases n)
  case (Element tag attrs kids)
  have "\<forall>k\<in>set kids. storeSources b opts f (storeSources b opts f k) = storeSources b opts f k"
  proof
    fix k assume k: "k \<in> set kids"
    with assms have "\<forall>s\<in>set (imgSources b k). needsEmbedding opts s \<longrightarrow>
      needsEmbedding opts (resolveUrl b (f s)) \<longrightarrow> f (resolveUrl b (f s)) = f s"
      by (auto simp: Element querySelectorAll_img_def)
    then show "storeSources b opts f (storeSources b opts f k) = storeSources b opts f k"
      by (rule storeSources_twice)
  qed
  then show ?thesis
    by (simp add: Element storeSourcesBelow_def)
next
  case (Text t)
  then show ?thesis by (simp add: storeSourcesBelow_def)
qed

lemma embedImages_snd:
  "snd (embedImages b v opts n) =
     awaitThen (Promise_all (embedPromises b v opts n))
       (\<lambda>values. Some (0, Fulfilled (storeSourcesBelow b opts (embeddedSource b v opts) n)))"
  by (simp add: embedImages_def allWithProgress_def)

lemma embedImages_idem_aux:
  assumes plain: "plainSources b v opts n"
    and rdbk: "storedSourcesReadBack b v opts n"
    and ok: "Promise_all (embedPromises b v opts n) = Some (t, Fulfilled vs)"
  shows "\<exists>t2. snd (embedImages b v opts (storeSourcesBelow b opts (embeddedSource b v opts) n))
            = Some (t2, Fulfilled (storeSourcesBelow b opts (embeddedSource b v opts) n))"
proof -
  define f where "f = embeddedSource b v opts"
  define srcs where "srcs = querySelectorAll_img b n"
  define n1 where "n1 = storeSourcesBelow b opts f n"
  from ok have "\<forall>p\<in>set (embedPromises b v opts n). \<exists>t u. p = Some (t, Fulfilled u)"
    using Promise_all_fulfilled_iff [of "embedPromises b v opts n"] by blast
  then have pass1: "\<forall>s\<in>set srcs. needsEmbedding opts s \<longrightarrow>
      (\<exists>t u. replaceImageSource b v opts s = Some (t, Fulfilled u))"
    by (auto simp: embedPromises_def srcs_def)
  have rb: "resolveUrl b (f s) = f s"
    if "s \<in> set srcs" "needsEmbedding opts s" "needsEmbedding opts (resolveUrl b (f s))" for s
    using rdbk that
    by (auto simp: storedSourcesReadBack_def readsBack_def list_all_iff srcs_def f_def)
  have fixed: "\<exists>t'. replaceImageSource b v opts (f s) = Some (t', Fulfilled (f s))"
    if s: "s \<in> set srcs" and need: "needsEmbedding opts s" and need': "needsEmbedding opts (f s)" for s
  proof -
    from pass1 s need obtain t0 u where P: "replaceImageSource b v opts s = Some (t0, Fulfilled u)"
      by blast
    with need have fs: "f s = u" by (simp add: f_def embeddedSource_def)
    have H: "\<not> rasterizedAgain b v opts s"
      using plain s by (simp add: plainSources_def srcs_def list_all_iff)
    from need' fs have "needsEmbedding opts u" by simp
    from replaceImageSource_fixpoint [OF P H this] fs show ?thesis by simp
  qed
  have again: "\<exists>t'. replaceImageSource b v opts s' = Some (t', Fulfilled s') \<and> f s' = f s"
    if s: "s \<in> set srcs" and need: "needsEmbedding opts s"
      and s': "s' = resolveUrl b (f s)" and need': "needsEmbedding opts s'" for s s'
  proof -
    from rb [OF s need] need' s' have eq: "s' = f s" by simp
    with need' have "needsEmbedding opts (f s)" by simp
    from fixed [OF s need this] obtain t' where
      p: "replaceImageSource b v opts (f s) = Some (t', Fulfilled (f s))" by blast
    with \<open>needsEmbedding opts (f s)\<close> have "f (f s) = f s"
      unfolding f_def embeddedSource_def by simp
    with p eq show ?thesis by simp
  qed
  have srcs1: "querySelectorAll_img b n1
      = map (\<lambda>s. if needsEmbedding opts s then resolveUrl b (f s) else s) srcs"
    by (simp add: n1_def srcs_def querySelectorAll_img_store)
  have "\<forall>p\<in>set (embedPromises b v opts n1). \<exists>t u. p = Some (t, Fulfilled u)"
  proof
    fix p assume "p \<in> set (embedPromises b v opts n1)"
    then obtain s where s: "s \<in> set srcs"
      and need': "needsEmbedding opts (if needsEmbedding opts s then resolveUrl b (f s) else s)"
      and p: "p = replaceImageSource b v opts (if needsEmbedding opts s then resolveUrl b (f s) else s)"
      by (auto simp: embedPromises_def srcs1)
    from need' have need: "needsEmbedding opts s" by (auto split: if_splits)
    with need' have "needsEmbedding opts (resolveUrl b (f s))" by simp
    from again [OF s need refl this] p need show "\<exists>t u. p = Some (t, Fulfilled u)"
      by auto
  qed
  then obtain t2 vs2 where all2: "Promise_all (embedPromises b v opts n1) = Some (t2, Fulfilled vs2)"
    using Promise_all_fulfilled_iff [of "embedPromises b v opts n1"] by blast
  have "\<forall>s\<in>set (querySelectorAll_img b n). needsEmbedding opts s \<longrightarrow>
      needsEmbedding opts (resolveUrl b (f s)) \<longrightarrow> f (resolveUrl b (f s)) = f s"
    using again unfolding srcs_def by blast
  then have "storeSourcesBelow b opts f n1 = n1"
    unfolding n1_def by (rule storeSourcesBelow_twice)
  with all2 have "snd (embedImages b v opts n1) = Some (t2, Fulfilled n1)"
    by (simp add: embedImages_snd f_def)
  then show ?thesis by (auto simp: n1_def f_def)
qed

text \<open>
  Claim C6, as amended. Take a tree in which no image is a local-store image that a
  second pass rasterizes (with SVG converted to bitmap, a file of the vault whose mime
  type merely begins with \<open>image/svg+xml\<close> and whose data URI the browser does not
  fail to rasterize), and in which every value the pass stores into an image is read
  back by \<open>img.src\<close> as it was stored, or as a source the pass leaves alone. Running
  \<open>embedImages\<close> on its own result then ends as running it once: rejected with the same
  error, or fulfilled with the same tree, so that every source, those in data-URI form
  included, is left as the first pass made it.
\<close>

theorem embedImages_idempotent:
  assumes "plainSources b v opts n" and "storedSourcesReadBack b v opts n"
  shows "outcome (embedImagesTwice b v opts n) = outcome (snd (embedImages b v opts n))"
proof (cases "Promise_all (embedPromises b v opts n)")
  case None
  then show ?thesis
    by (simp add: embedImagesTwice_def embedImages_snd)
next
  case (Some tr)
  obtain t r where tr: "tr = (t, r)" by (cases tr)
  show ?thesis
  proof (cases r)
    case (Rejected e)
    with Some tr show ?thesis
      by (simp add: embedImagesTwice_def embedImages_snd)
  next
    case (Fulfilled vs)
    with Some tr have ok: "Promise_all (embedPromises b v opts n) = Some (t, Fulfilled vs)"
      by simp
    from embedImages_idem_aux [OF assms ok] obtain t2 where
      "snd (embedImages b v opts (storeSourcesBelow b opts (embeddedSource b v opts) n))
        = Some (t2, Fulfilled (storeSourcesBelow b opts (embeddedSource b v opts) n))" by blast
    with ok show ?thesis
      by (simp add: embedImagesTwice_def embedImages_snd outcome_def)
  qed
qed
section \<open>Image resolution on examples\<close>

lemma redPixel_base64: "arrayBufferToBase64 redPixelPng = redPixelBase64"
  by (simp add: redPixelPng_def redPixelBase64_def base64Char_def base64Alphabet_def)


lemmas example_defs = loadingBrowser_def failingBrowser_def offlineBrowser_def
  resolveExample_def decodeExample_def emptyVault_def oddVault_def pictureVault_def
  missingImageDocument_def mixedDocument_def oddDocument_def drawingDocument_def
  galleryDocument_def DEFAULT_SETTINGS_def

lemmas embed_defs = embedImages_def embedImagesTwice_def allWithProgress_def embedPromises_def
  querySelectorAll_img_def needsEmbedding_def replaceImageSource_def decodeURI_def
  vaultLocalUriPrefix_def imageToDataUri_def image_onload_def image_onerror_def
  readFromVault_def storeSourcesBelow_def embeddedSource_def imgSrc_def getAttribute_def
  Promise_all_def outcome_def substring_def stripQueryAndHash_def

lemmas mime_defs = guessMimeType_def getExtension_def lastIndexOf_def slice_def
  toLowerCase_def lowerChar_def mimeMap_def isSvg_def

lemmas cleanup_defs = transformHTML_def cleanupPasses_def removeAttribute_def
  removeFrontMatterPass_def makeCheckboxesReadOnly_def removeCollapseIndicators_def
  removeButtons_def removeStrangeNewWorldsLinks_def hasClass_def hasTag_def isCheckbox_def
  classList_def

lemma missingImage_promises:
  "embedPromises loadingBrowser emptyVault DEFAULT_SETTINGS missingImageDocument
     = [Some (0, Rejected (Error ''File not found: missing.png'')),
        Some (500, Fulfilled (''data:image/png;base64,'' @ redPixelBase64))]"
  by (simp add: example_defs embedPromises_def querySelectorAll_img_def needsEmbedding_def
      replaceImageSource_def decodeURI_def vaultLocalUriPrefix_def imageToDataUri_def
      image_onload_def readFromVault_def imgSrc_def getAttribute_def substring_def
      stripQueryAndHash_def mime_defs)

lemma missingImage_cleanup:
  "cleanupPasses DEFAULT_SETTINGS missingImageDocument = missingImageDocument"
  by (simp add: missingImageDocument_def DEFAULT_SETTINGS_def cleanup_defs getAttribute_def)

text \<open>
  Claim C1 at a document with two images, the first a local-store image whose file does
  not exist, the second an external image that loads after 500 ms. The promise of the
  first image is rejected at once; \<open>allWithProgress\<close> is rejected with it at time 0,
  although the second promise settles only at time 500; \<open>embedImages\<close> and
  \<open>transformHTML\<close> are rejected in turn, and \<open>doCopy\<close> ends in its \<open>catch\<close> block.
\<close>

theorem allWithProgress_rejects_early:
  "embedPromises loadingBrowser emptyVault DEFAULT_SETTINGS missingImageDocument
     = [Some (0, Rejected (Error ''File not found: missing.png'')),
        Some (500, Fulfilled (''data:image/png;base64,'' @ redPixelBase64))]
   \<and> lastSettled (embedPromises loadingBrowser emptyVault DEFAULT_SETTINGS missingImageDocument)
     = Some 500
   \<and> snd (allWithProgress
            (embedPromises loadingBrowser emptyVault DEFAULT_SETTINGS missingImageDocument))
     = Some (0, Rejected (Error ''File not found: missing.png''))
   \<and> snd (embedImages loadingBrowser emptyVault DEFAULT_SETTINGS missingImageDocument)
     = Some (0, Rejected (Error ''File not found: missing.png''))
   \<and> doCopy_end
        (transformHTML loadingBrowser emptyVault DEFAULT_SETTINGS renderSvg missingImageDocument)
        rest g
     = Some (''copy failed: File not found: missing.png'', doCopy_finally g)"
proof -
  have disabled: "\<not> disableImageEmbedding DEFAULT_SETTINGS"
    by (simp add: DEFAULT_SETTINGS_def)
  show ?thesis
    by (simp add: missingImage_promises missingImage_cleanup disabled embedImages_def
        allWithProgress_def Promise_all_def transformHTML_def doCopy_end_def)
qed










text \<open>
  The amended claim C6 on a document with two images of the vault (a PNG and an SVG
  file), an image outside the vault that does not load, an image that is a data URI
  already and an image without source.
\<close>

theorem embedImages_idempotent_witness:
  "plainSources offlineBrowser pictureVault DEFAULT_SETTINGS galleryDocument
   \<and> storedSourcesReadBack offlineBrowser pictureVault DEFAULT_SETTINGS galleryDocument
   \<and> outcome (snd (embedImages offlineBrowser pictureVault DEFAULT_SETTINGS galleryDocument))
     = Some (Fulfilled (Element ''div'' []
         [Element ''img''
            [(''src'', ''data:image/png;base64,'' @ redPixelBase64), (''alt'', ''pic'')] [],
          Element ''img'' [(''src'', ''data:image/png;base64,'' @ redPixelBase64)] [],
          Element ''p'' []
            [Element ''img'' [(''src'', ''app://obsidian.md/a%20b.png'')] [],
             Element ''img'' [(''src'', ''data:image/png;base64,AAAA'')] [],
             Element ''img'' [(''alt'', ''none'')] []]]))
   \<and> outcome (embedImagesTwice offlineBrowser pictureVault DEFAULT_SETTINGS galleryDocument)
     = outcome (snd (embedImages offlineBrowser pictureVault DEFAULT_SETTINGS galleryDocument))"
proof -
  have plain: "plainSources offlineBrowser pictureVault DEFAULT_SETTINGS galleryDocument"
    by code_simp
  have reads: "storedSourcesReadBack offlineBrowser pictureVault DEFAULT_SETTINGS galleryDocument"
    by code_simp
  have once: "outcome (snd (embedImages offlineBrowser pictureVault DEFAULT_SETTINGS galleryDocument))
     = Some (Fulfilled (Element ''div'' []
         [Element ''img''
            [(''src'', ''data:image/png;base64,'' @ redPixelBase64), (''alt'', ''pic'')] [],
          Element ''img'' [(''src'', ''data:image/png;base64,'' @ redPixelBase64)] [],
          Element ''p'' []
            [Element ''img'' [(''src'', ''app://obsidian.md/a%20b.png'')] [],
             Element ''img'' [(''src'', ''data:image/png;base64,AAAA'')] [],
             Element ''img'' [(''alt'', ''none'')] []]]))"
    by code_simp
  from embedImages_idempotent [OF plain reads] plain reads once show ?thesis
    by simp
qed

text \<open>
  Claim C6 as stated fails on a document with the local-store image \<open>pic.svg+xmlz\<close>:
  the first pass embeds the file as a data URI of type \<open>image/svg+xmlz\<close>, which
  reads back as it was stored, and the second pass, which takes every source that
  begins with \<open>data:image/svg+xml\<close>, rasterizes that source into a PNG data URI.
\<close>

theorem embedImages_twice_counterexample:
  "outcome (snd (embedImages loadingBrowser oddVault DEFAULT_SETTINGS oddDocument))
     = Some (Fulfilled (Element ''div'' []
         [Element ''img'' [(''src'', (''data:image/svg+xmlz;base64,'' @ redPixelBase64))] []]))
   \<and> outcome (embedImagesTwice loadingBrowser oddVault DEFAULT_SETTINGS oddDocument)
     = Some (Fulfilled (Element ''div'' []
         [Element ''img'' [(''src'', (''data:image/png;base64,'' @ redPixelBase64))] []]))
   \<and> outcome (embedImagesTwice loadingBrowser oddVault DEFAULT_SETTINGS oddDocument)
     \<noteq> outcome (snd (embedImages loadingBrowser oddVault DEFAULT_SETTINGS oddDocument))"
proof -
  have once: "outcome (snd (embedImages loadingBrowser oddVault DEFAULT_SETTINGS oddDocument))
     = Some (Fulfilled (Element ''div'' []
         [Element ''img'' [(''src'', (''data:image/svg+xmlz;base64,'' @ redPixelBase64))] []]))"
    by code_simp
  have twice: "outcome (embedImagesTwice loadingBrowser oddVault DEFAULT_SETTINGS oddDocument)
     = Some (Fulfilled (Element ''div'' []
         [Element ''img'' [(''src'', (''data:image/png;base64,'' @ redPixelBase64))] []]))"
    by code_simp
  have "(''data:image/png;base64,'' @ redPixelBase64) \<noteq> (''data:image/svg+xmlz;base64,'' @ redPixelBase64)"
    by simp
  with once twice show ?thesis by simp
qed
section \<open>Inline styles\<close>

lemma styleNodes_length:
  "length (styleNodes m d l g pos k ns) = length ns"
  by (induction ns arbitrary: k) simp_all

lemma styleNodes_nth:
  "i < length ns \<Longrightarrow>
   styleNodes m d l g pos k ns ! i = styleNode m d l g (pos @ [k + i]) (ns ! i)"
proof (induction ns arbitrary: k i)
  case Nil
  then show ?case by simp
next
  case (Cons n ns)
  show ?case
  proof (cases i)
    case 0
    then show ?thesis by simp
  next
    case (Suc j)
    with Cons.prems have "j < length ns" by simp
    from Cons.IH [OF this, of "Suc k"] Suc show ?thesis by simp
  qed
qed

lemma currentStyle_setAttribute: "currentStyle (setAttribute ''style'' x attrs) = x"
  by (induction attrs) (auto simp: currentStyle_def getAttribute_def)

lemma styleNode_descend:
  "\<not> (tag = ''li'' \<and> m pos) \<Longrightarrow>
   \<exists>attrs'. styleNode m d l g pos (Element tag attrs kids)
     = Element tag attrs'
         (styleNodes m d l (g \<or> ''image-grid'' \<in> set (classList attrs)) pos 0 kids)"
  by auto

lemma pathAfter_cons: "\<exists>p'. pathAfter m pos ns (j # p) = j # p'"
  by (cases p) (auto split: node.splits)

lemma styleNodes_round:
  "nodeAt ns p = Some (Element tag attrs kids) \<Longrightarrow>
   \<exists>kids'. nodeAt (styleNodes m d l g pos 0 ns) (pathAfter m pos ns p)
     = Some (Element tag
         (if m (pos @ p) \<and> reached m pos ns p \<and> \<not> (tag = ''img'' \<and> (g \<or> inImageGrid ns p))
          then setAttribute ''style''
                 (currentStyle attrs @ ''; '' @ (if tag = ''li'' then l else d)) attrs
          else attrs)
         kids')"
proof (induction ns p arbitrary: pos g rule: nodeAt.induct)
  case (1 ns)
  then show ?case by simp
next
  case (2 ns i)
  then have i: "i < length ns" and n: "ns ! i = Element tag attrs kids"
    by (auto split: if_splits)
  then show ?case
    by (auto simp: styleNodes_length styleNodes_nth)
next
  case (3 ns i j p)
  from "3.prems"(1) have i: "i < length ns"
    by (auto split: if_splits)
  with "3.prems"(1) obtain t a ks where n: "ns ! i = Element t a ks"
    and below: "nodeAt ks (j # p) = Some (Element tag attrs kids)"
    by (cases "ns ! i") auto
  show ?case
  proof (cases "t = ''li'' \<and> m (pos @ [i])")
    case True
    then have "styleNode m d l g (pos @ [i]) (Element t a ks)
        = Element t (setAttribute ''style'' (currentStyle a @ ''; '' @ l) a) [Element ''p'' [] ks]"
      by simp
    with True i n below show ?thesis
      by (simp add: styleNodes_length styleNodes_nth)
  next
    case False
    define g' where "g' = (g \<or> ''image-grid'' \<in> set (classList a))"
    from "3.IH" [where pos = "pos @ [i]" and g = g', OF i n below]
    obtain kids' where res: "nodeAt (styleNodes m d l g' (pos @ [i]) 0 ks)
          (pathAfter m (pos @ [i]) ks (j # p))
        = Some (Element tag
            (if m ((pos @ [i]) @ j # p) \<and> reached m (pos @ [i]) ks (j # p)
                \<and> \<not> (tag = ''img'' \<and> (g' \<or> inImageGrid ks (j # p)))
             then setAttribute ''style''
                    (currentStyle attrs @ ''; '' @ (if tag = ''li'' then l else d)) attrs
             else attrs)
            kids')"
      by blast
    obtain p' where p': "pathAfter m (pos @ [i]) ks (j # p) = j # p'"
      using pathAfter_cons by blast
    from styleNode_descend [where m = m and pos = "pos @ [i]" and tag = t, OF False, of d l g a ks]
    obtain a' where sn: "styleNode m d l g (pos @ [i]) (Element t a ks)
        = Element t a' (styleNodes m d l g' (pos @ [i]) 0 ks)"
      unfolding g'_def by blast
    have path: "pathAfter m pos ns (i # j # p) = i # j # p'"
      using False i n p' by auto
    have cond: "(m (pos @ i # j # p) \<and> reached m pos ns (i # j # p)
          \<and> \<not> (tag = ''img'' \<and> (g \<or> inImageGrid ns (i # j # p))))
        = (m ((pos @ [i]) @ j # p) \<and> reached m (pos @ [i]) ks (j # p)
          \<and> \<not> (tag = ''img'' \<and> (g' \<or> inImageGrid ks (j # p))))"
      using False i n by (auto simp: g'_def)
    have "nodeAt (styleNodes m d l g pos 0 ns) (i # j # p')
        = nodeAt (styleNodes m d l g' (pos @ [i]) 0 ks) (j # p')"
      using i n sn by (simp add: styleNodes_length styleNodes_nth)
    with res show ?thesis
      unfolding path cond p' by simp
  qed
qed

lemma applySelector_round:
  assumes "nodeAt doc p = Some (Element tag attrs kids)"
  shows "\<exists>attrs' kids'. nodeAt (applySelector env style selector doc) (roundPath env selector doc p)
           = Some (Element tag attrs' kids')
         \<and> currentStyle attrs' = currentStyle attrs
             @ (if roundApplies env selector doc p tag then roundText style selector tag else [])"
proof (cases "skippedSelector selector")
  case True
  with assms show ?thesis
    by (auto simp: applySelector_def roundPath_def roundApplies_def skippedSelector_def)
next
  case False
  define m where "m = matchesSelector env selector doc"
  define d where "d = jsString (map_of style selector)"
  define l where "l = jsString (map_of style ''li'')"
  have c: "(m ([] @ p) \<and> reached m [] doc p \<and> \<not> (tag = ''img'' \<and> (False \<or> inImageGrid doc p)))
      = roundApplies env selector doc p tag"
    using False by (simp add: roundApplies_def m_def)
  have t: "''; '' @ (if tag = ''li'' then l else d) = roundText style selector tag"
    by (simp add: roundText_def l_def d_def)
  have a: "applySelector env style selector doc = styleNodes m d l False [] 0 doc"
    using False by (simp add: applySelector_def skippedSelector_def m_def d_def l_def)
  have r: "roundPath env selector doc p = pathAfter m [] doc p"
    using False by (simp add: roundPath_def m_def)
  from styleNodes_round [OF assms, of m d l False "[]"]
  have "\<exists>kids'. nodeAt (applySelector env style selector doc) (roundPath env selector doc p)
     = Some (Element tag
         (if roundApplies env selector doc p tag
          then setAttribute ''style'' (currentStyle attrs @ roundText style selector tag) attrs
          else attrs)
         kids')"
    unfolding c t a r .
  then show ?thesis
    by (auto simp: currentStyle_setAttribute)
qed

lemma applySelectors_run:
  "nodeAt doc p = Some (Element tag attrs kids) \<Longrightarrow>
   \<exists>attrs' kids'.
      nodeAt (foldl (\<lambda>doc selector. applySelector env style selector doc) doc keys)
        (runPath env style keys doc p) = Some (Element tag attrs' kids')
      \<and> currentStyle attrs' = currentStyle attrs @ runAppended env style tag keys doc p"
proof (induction keys arbitrary: doc p attrs kids)
  case Nil
  then show ?case by simp
next
  case (Cons selector keys)
  from applySelector_round [OF Cons.prems, of env style selector]
  obtain a1 k1 where n1: "nodeAt (applySelector env style selector doc) (roundPath env selector doc p)
           = Some (Element tag a1 k1)"
    and s1: "currentStyle a1 = currentStyle attrs
             @ (if roundApplies env selector doc p tag then roundText style selector tag else [])"
    by blast
  from Cons.IH [OF n1] obtain a2 k2 where
    "nodeAt (foldl (\<lambda>doc selector. applySelector env style selector doc)
        (applySelector env style selector doc) keys)
        (runPath env style keys (applySelector env style selector doc) (roundPath env selector doc p))
      = Some (Element tag a2 k2)"
    and "currentStyle a2 = currentStyle a1
        @ runAppended env style tag keys (applySelector env style selector doc)
            (roundPath env selector doc p)"
    by blast
  with s1 show ?case by simp
qed

lemma list_parsed:
  \<open>parseFromString exampleDom
     ''<p style="color:red">hello</p><ul><li><strong>a</strong>b</li></ul>''
   = redParagraphAndList\<close>
  by (simp add: exampleDom_def)

lemma list_styles: "exampleStyles ''wechat-list'' = Some \<lparr>styles = listRules\<rparr>"
  by (simp add: exampleStyles_def)

lemma list_paths:
  "runPath exampleDom listRules (map fst listRules) redParagraphAndList [0] = [0]"
  "runPath exampleDom listRules (map fst listRules) redParagraphAndList [1, 0, 0] = [1, 0, 0, 0]"
  by code_simp+

lemma list_appended:
  "runAppended exampleDom listRules ''p'' (map fst listRules) redParagraphAndList [0]
   = ''; font-size:14px''"
  "runAppended exampleDom listRules ''strong'' (map fst listRules) redParagraphAndList [1, 0, 0]
   = ''; color:blue''"
  by code_simp+

text \<open>
  Claim C7, as amended. Take a style of the catalog and an element of the parsed
  document. \<open>applyInlineStyles\<close> returns the serialization of the container around
  the document that the rounds of the selectors leave, and in that document the
  element (or its clone, where the wrapping of a list item has moved it) has as inline
  style the style it had, followed by what the rounds appended, in the order of the
  keys of the rule set: each round whose selector is not \<open>pre\<close>, \<open>code\<close> or
  \<open>pre code\<close>, whose selector matches the element while no list item above the
  element is matched in the same round, and for which the element is not an image with
  the class \<open>image-grid\<close> on itself or on an ancestor, appends \<open>; \<close> and the
  declarations of its rule (for a list item: of the rule \<open>li\<close>). No round removes
  or replaces what the inline style held before.
\<close>

theorem applyInlineStyles_appends:
  assumes "STYLES applyStyle = Some styleObj"
    and "nodeAt (parseFromString env html) p = Some (Element tag attrs kids)"
  shows "snd (applyInlineStyles env STYLES html applyStyle)
       = Inr (outerHTML env
           (Element ''div'' [(''style'', jsString (map_of (styles styleObj) ''container''))]
              (applySelectors env (styles styleObj) (parseFromString env html))))
     \<and> (\<exists>attrs' kids'.
          nodeAt (applySelectors env (styles styleObj) (parseFromString env html))
            (runPath env (styles styleObj) (map fst (styles styleObj))
               (parseFromString env html) p)
          = Some (Element tag attrs' kids')
        \<and> currentStyle attrs'
          = currentStyle attrs
            @ runAppended env (styles styleObj) tag (map fst (styles styleObj))
                (parseFromString env html) p)"
  using assms(1) applySelectors_run [OF assms(2), of env "styles styleObj" "map fst (styles styleObj)"]
  by (simp add: applyInlineStyles_def applySelectors_def)


theorem applyInlineStyles_appends_witness:
  \<open>snd (applyInlineStyles exampleDom exampleStyles
          ''<p style="color:red">hello</p><ul><li><strong>a</strong>b</li></ul>'' ''wechat-list'')
     = Inr (''<div style="margin:0"><p style="color:red; font-size:14px">hello</p>''
            @ ''<ul><li style="; margin:4px"><p style="; font-size:14px">''
            @ ''<strong style="; color:blue">a</strong>b</p></li></ul></div>'')
   \<and> nodeAt redParagraphAndList [0]
       = Some (Element ''p'' [(''style'', ''color:red'')] [Text ''hello''])
   \<and> (\<exists>attrs' kids'.
         nodeAt (applySelectors exampleDom listRules redParagraphAndList) [0]
         = Some (Element ''p'' attrs' kids')
       \<and> currentStyle attrs' = ''color:red; font-size:14px'')
   \<and> nodeAt redParagraphAndList [1, 0, 0] = Some (Element ''strong'' [] [Text ''a''])
   \<and> (\<exists>attrs' kids'.
         nodeAt (applySelectors exampleDom listRules redParagraphAndList) [1, 0, 0, 0]
         = Some (Element ''strong'' attrs' kids')
       \<and> currentStyle attrs' = ''; color:blue'')\<close>
proof -
  have n0: \<open>nodeAt (parseFromString exampleDom
        ''<p style="color:red">hello</p><ul><li><strong>a</strong>b</li></ul>'') [0]
      = Some (Element ''p'' [(''style'', ''color:red'')] [Text ''hello''])\<close>
    by (simp add: list_parsed redParagraphAndList_def)
  have n1: \<open>nodeAt (parseFromString exampleDom
        ''<p style="color:red">hello</p><ul><li><strong>a</strong>b</li></ul>'') [1, 0, 0]
      = Some (Element ''strong'' [] [Text ''a''])\<close>
    by (simp add: list_parsed redParagraphAndList_def)
  have out: \<open>snd (applyInlineStyles exampleDom exampleStyles
          ''<p style="color:red">hello</p><ul><li><strong>a</strong>b</li></ul>'' ''wechat-list'')
     = Inr (''<div style="margin:0"><p style="color:red; font-size:14px">hello</p>''
            @ ''<ul><li style="; margin:4px"><p style="; font-size:14px">''
            @ ''<strong style="; color:blue">a</strong>b</p></li></ul></div>'')\<close>
    by code_simp
  have sel: "styles \<lparr>styles = listRules\<rparr> = listRules"
    by simp
  note p = applyInlineStyles_appends
      [where STYLES = exampleStyles and applyStyle = "''wechat-list''", OF list_styles n0,
       unfolded sel list_parsed list_paths list_appended]
  note s = applyInlineStyles_appends
      [where STYLES = exampleStyles and applyStyle = "''wechat-list''", OF list_styles n1,
       unfolded sel list_parsed list_paths list_appended]
  from p s out n0 n1 show ?thesis
    unfolding list_parsed by (simp add: currentStyle_def getAttribute_def)
qed

lemmas style_example_defs = exampleDom_def exampleStyles_def redParagraph_def redPre_def
  matchesTypeSelector_def

lemma redPre_styled:
  "applySelectors exampleDom
     [(''container'', ''margin:0''), (''p'', ''font-size:14px''), (''pre'', ''font-size:14px'')]
     redPre
   = redPre"
  by (simp add: applySelectors_def applySelector_def style_example_defs jsString_def
      currentStyle_def getAttribute_def classList_def)

text \<open>
  Claim C7 as stated fails for the selector \<open>pre\<close>: a \<open>pre\<close> element with the
  inline style \<open>color:red\<close> is matched by the rule \<open>pre\<close> that adds
  \<open>font-size:14px\<close>, and its style is \<open>color:red\<close> still in the result.
\<close>

theorem applyInlineStyles_pre_counterexample:
  \<open>nodeAt redPre [0]
     = Some (Element ''pre'' [(''style'', ''color:red'')] [Element ''code'' [] [Text ''x'']])
   \<and> matchesSelector exampleDom ''pre'' redPre [0]
   \<and> applySelector exampleDom
        [(''container'', ''margin:0''), (''p'', ''font-size:14px''), (''pre'', ''font-size:14px'')]
        ''pre'' redPre = redPre
   \<and> applyInlineStyles exampleDom exampleStyles
        ''<pre style="color:red"><code>x</code></pre>'' ''wechat-default''
     = ([], Inr ''<div style="margin:0"><pre style="color:red"><code>x</code></pre></div>'')\<close>
proof -
  have \<open>applyInlineStyles exampleDom exampleStyles
        ''<pre style="color:red"><code>x</code></pre>'' ''wechat-default''
     = ([], Inr (serializeNode (Element ''div'' [(''style'', ''margin:0'')] redPre)))\<close>
    using redPre_styled
    by (simp add: applyInlineStyles_def exampleDom_def exampleStyles_def jsString_def)
  then show ?thesis
    by (simp add: redPre_def applySelector_def exampleDom_def matchesTypeSelector_def)
qed

text \<open>
  Claim C2 at a style name that the catalog does not have: the warning is logged, then
  \<open>applyInlineStyles\<close> throws, for every input HTML; in \<open>doCopy\<close> the throw reaches
  the \<open>catch\<close> block and the copy fails.
\<close>

theorem applyInlineStyles_unknown_style:
  "applyInlineStyles env exampleStyles html ''no-such-style''
     = ([''style no-such-style does not exist, using the default style''],
        Inl (TypeError ''Cannot read properties of undefined (reading styles)''))
   \<and> doCopy_end (Some (t, Fulfilled n))
        (\<lambda>n. styleAndWrite env exampleStyles ''no-such-style'' (outerHTML env n)) g
     = Some (''copy failed: Cannot read properties of undefined (reading styles)'',
             doCopy_finally g)"
  by (simp add: applyInlineStyles_def exampleStyles_def styleAndWrite_def doCopy_end_def)

section \<open>The HTML template\<close>

lemma getSubstitution_plain:
  "CHR ''$'' \<notin> set r \<Longrightarrow> getSubstitution m b a r = r"
  by (induction m b a r rule: getSubstitution.induct) auto

lemma splitAtFirst_skip:
  "CHR ''$'' \<notin> set x \<Longrightarrow>
   splitAtFirst (CHR ''$'' # p) (x @ s)
   = map_option (\<lambda>(pre, post). (x @ pre, post)) (splitAtFirst (CHR ''$'' # p) s)"
proof (induction x)
  case Nil
  show ?case by (cases "splitAtFirst (CHR ''$'' # p) s") auto
next
  case (Cons c x)
  then show ?case by (cases "splitAtFirst (CHR ''$'' # p) s") auto
qed

lemma startsWith_length:
  "startsWith (u @ c # v) p \<Longrightarrow> c \<notin> set p \<Longrightarrow> length p \<le> length u"
proof (induction u arbitrary: p)
  case Nil
  then show ?case by (cases p) auto
next
  case (Cons a u)
  then show ?case by (cases p) auto
qed

lemma splitAtFirst_keeps:
  assumes base: "\<And>y. splitAtFirst p (c0 # l @ y)
        = map_option (\<lambda>(pre, post). (c0 # l @ pre, post)) (splitAtFirst p y)"
    and c0: "c0 \<notin> set p"
  shows "splitAtFirst p (x @ c0 # l @ y) = None
       \<or> (\<exists>pre post. splitAtFirst p (x @ c0 # l @ y) = Some (pre, post)
            \<and> ((\<exists>x2. pre = x @ c0 # l @ x2) \<or> (\<exists>a2. post = a2 @ c0 # l @ y)))"
proof (induction x)
  case Nil
  show ?case
    unfolding append_Nil base by (cases "splitAtFirst p y") auto
next
  case (Cons c x)
  show ?case
  proof (cases "startsWith (c # x @ c0 # l @ y) p")
    case True
    then have "startsWith ((c # x) @ c0 # (l @ y)) p" by simp
    from startsWith_length [OF this c0] have "length p \<le> length (c # x)" .
    then have "drop (length p) ((c # x) @ c0 # l @ y) = drop (length p) (c # x) @ c0 # l @ y"
      by (simp only: drop_append) simp
    then have "drop (length p) (c # x @ c0 # l @ y) = drop (length p) (c # x) @ c0 # l @ y"
      by simp
    with True show ?thesis by auto
  next
    case False
    with Cons show ?thesis by auto
  qed
qed

lemma replaceString_keeps:
  assumes base: "\<And>y. splitAtFirst p (c0 # l @ y)
        = map_option (\<lambda>(pre, post). (c0 # l @ pre, post)) (splitAtFirst p y)"
    and c0: "c0 \<notin> set p"
  shows "\<exists>x' y'. replaceString (x @ c0 # l @ y) p r = x' @ c0 # l @ y'"
proof (cases "splitAtFirst p (x @ c0 # l @ y)")
  case None
  then have "replaceString (x @ c0 # l @ y) p r = x @ c0 # l @ y"
    by (simp add: replaceString_def)
  then show ?thesis by blast
next
  case (Some pp)
  obtain pre post where pp: "pp = (pre, post)" by (cases pp)
  from splitAtFirst_keeps [OF base c0, of x y] Some pp
  have "(\<exists>x2. pre = x @ c0 # l @ x2) \<or> (\<exists>a2. post = a2 @ c0 # l @ y)"
    by simp
  then show ?thesis
  proof
    assume "\<exists>x2. pre = x @ c0 # l @ x2"
    then obtain x2 where "pre = x @ c0 # l @ x2" ..
    with Some pp have "replaceString (x @ c0 # l @ y) p r
        = x @ c0 # l @ (x2 @ getSubstitution p pre post r @ post)"
      by (simp add: replaceString_def)
    then show ?thesis by blast
  next
    assume "\<exists>a2. post = a2 @ c0 # l @ y"
    then obtain a2 where "post = a2 @ c0 # l @ y" ..
    with Some pp have "replaceString (x @ c0 # l @ y) p r
        = (pre @ getSubstitution p pre post r @ a2) @ c0 # l @ y"
      by (simp add: replaceString_def)
    then show ?thesis by blast
  qed
qed


lemma splitAtFirst_here:
  "splitAtFirst (c # p) ((c # p) @ R) = Some ([], R)"
  using startsWith_append [of "c # p" R] by simp

lemma splitAtFirst_found:
  assumes "CHR ''$'' \<notin> set x"
  shows "splitAtFirst (CHR ''$'' # p) (x @ (CHR ''$'' # p) @ R) = Some (x, R)"
proof -
  have "splitAtFirst (CHR ''$'' # p) (x @ ((CHR ''$'' # p) @ R))
      = map_option (\<lambda>(pre, post). (x @ pre, post))
          (splitAtFirst (CHR ''$'' # p) ((CHR ''$'' # p) @ R))"
    using assms by (rule splitAtFirst_skip)
  also have "\<dots> = Some (x, R)"
    by (simp only: splitAtFirst_here) simp
  finally show ?thesis .
qed

lemma mermaidLine_skipped_aux:
  assumes "\<not> startsWith ''${MERMAID_STYLESHEET}'' (take 3 p)" and "take 1 p = ''$''"
  shows "splitAtFirst p (mermaidLine @ y)
   = map_option (\<lambda>(pre, post). (mermaidLine @ pre, post)) (splitAtFirst p y)"
proof -
  obtain q where p: "p = CHR ''$'' # q"
    using assms(2) by (cases p) auto
  have "splitAtFirst p ((''<style>'' @ [CHR 0x0A] @ ''    '') @ ''${MERMAID_STYLESHEET}'' @ CHR 0x0A # y)
      = map_option (\<lambda>(pre, post). ((''<style>'' @ [CHR 0x0A] @ ''    '') @ pre, post))
          (splitAtFirst p (''${MERMAID_STYLESHEET}'' @ CHR 0x0A # y))"
    unfolding p by (rule splitAtFirst_skip) simp
  moreover have "\<not> startsWith (''${MERMAID_STYLESHEET}'' @ CHR 0x0A # y) p"
    using assms(1) unfolding p by (cases q; cases "tl q") auto
  then have "splitAtFirst p (''${MERMAID_STYLESHEET}'' @ CHR 0x0A # y)
      = map_option (\<lambda>(pre, post). (CHR ''$'' # pre, post))
          (splitAtFirst p (''{MERMAID_STYLESHEET}'' @ CHR 0x0A # y))"
    by simp
  moreover have "splitAtFirst p (''{MERMAID_STYLESHEET}'' @ CHR 0x0A # y)
      = map_option (\<lambda>(pre, post). ((''{MERMAID_STYLESHEET}'' @ [CHR 0x0A]) @ pre, post))
          (splitAtFirst p y)"
    unfolding p using splitAtFirst_skip [of "''{MERMAID_STYLESHEET}'' @ [CHR 0x0A]" q y] by simp
  ultimately show ?thesis
    by (cases "splitAtFirst p y") (auto simp: mermaidLine_def)
qed

lemma mermaidLine_skipped:
  "p = ''${title}'' \<or> p = ''${body}'' \<or> p = ''${stylesheet}'' \<Longrightarrow>
   splitAtFirst p (mermaidLine @ y)
   = map_option (\<lambda>(pre, post). (mermaidLine @ pre, post)) (splitAtFirst p y)"
  by (rule mermaidLine_skipped_aux) auto

lemma stylesheet_skipped:
  "splitAtFirst ''${body}'' (''${stylesheet}'' @ y)
   = map_option (\<lambda>(pre, post). (''${stylesheet}'' @ pre, post)) (splitAtFirst ''${body}'' y)"
proof -
  have "splitAtFirst ''${body}'' (''${stylesheet}'' @ y)
      = map_option (\<lambda>(pre, post). (CHR ''$'' # pre, post))
          (splitAtFirst ''${body}'' (''{stylesheet}'' @ y))"
    by simp
  moreover have "splitAtFirst ''${body}'' (''{stylesheet}'' @ y)
      = map_option (\<lambda>(pre, post). (''{stylesheet}'' @ pre, post)) (splitAtFirst ''${body}'' y)"
    by (rule splitAtFirst_skip) simp
  ultimately show ?thesis
    by (cases "splitAtFirst ''${body}'' y") auto
qed

lemma replaceString_keeps_mermaidLine:
  assumes "p = ''${title}'' \<or> p = ''${body}'' \<or> p = ''${stylesheet}''"
  shows "\<exists>x' y'. replaceString (x @ mermaidLine @ y) p r = x' @ mermaidLine @ y'"
proof -
  define l where "l = tl mermaidLine"
  have ml: "mermaidLine = CHR ''<'' # l"
    by (simp add: l_def mermaidLine_def)
  have base: "\<And>y. splitAtFirst p (CHR ''<'' # l @ y)
      = map_option (\<lambda>(pre, post). (CHR ''<'' # l @ pre, post)) (splitAtFirst p y)"
    using mermaidLine_skipped [OF assms] by (simp add: ml)
  have c0: "CHR ''<'' \<notin> set p"
    using assms by auto
  from replaceString_keeps [OF base c0, of x y r] show ?thesis
    by (simp add: ml)
qed

lemma expandHtmlTemplate_keeps_mermaidLine:
  "\<exists>pre post. expandHtmlTemplate styleSheet html title = pre @ mermaidLine @ post"
proof -
  have "DEFAULT_HTML_TEMPLATE
      = (templateHead @ ''${title}'' @ templateAfterTitle) @ mermaidLine
        @ (templateBeforeStylesheet @ ''${stylesheet}'' @ templateAfterStylesheet
           @ ''${body}'' @ templateTail)"
    by (simp add: DEFAULT_HTML_TEMPLATE_def)
  then obtain x1 y1 where
    s1: "replaceString DEFAULT_HTML_TEMPLATE ''${title}'' title = x1 @ mermaidLine @ y1"
    using replaceString_keeps_mermaidLine [of "''${title}''"] by metis
  obtain x2 y2 where
    s2: "replaceString (x1 @ mermaidLine @ y1) ''${body}'' html = x2 @ mermaidLine @ y2"
    using replaceString_keeps_mermaidLine [of "''${body}''"] by metis
  obtain x3 y3 where
    s3: "replaceString (x2 @ mermaidLine @ y2) ''${stylesheet}'' styleSheet = x3 @ mermaidLine @ y3"
    using replaceString_keeps_mermaidLine [of "''${stylesheet}''"] by metis
  show ?thesis
    unfolding expandHtmlTemplate_def s1 s2 s3 by blast
qed

lemma template_plain:
  "CHR ''$'' \<notin> set templateHead" "CHR ''$'' \<notin> set templateAfterTitle"
  "CHR ''$'' \<notin> set templateBeforeStylesheet" "CHR ''$'' \<notin> set templateAfterStylesheet"
  by (simp_all add: templateHead_def templateAfterTitle_def templateBeforeStylesheet_def
      templateAfterStylesheet_def)

lemma startsWith_shorter:
  "startsWith (u @ w) p \<Longrightarrow> length p \<le> length u \<Longrightarrow> startsWith u p"
proof (induction u arbitrary: p)
  case Nil
  then show ?case by simp
next
  case (Cons a u)
  then show ?case by (cases p) auto
qed

lemma splitAtFirst_absent:
  assumes "splitAtFirst p x = None" and c0: "c0 \<notin> set p"
  shows "splitAtFirst p (x @ c0 # s)
       = map_option (\<lambda>(pre, post). (x @ pre, post)) (splitAtFirst p (c0 # s))"
  using assms(1)
proof (induction x)
  case Nil
  show ?case by (cases "splitAtFirst p (c0 # s)") auto
next
  case (Cons c x)
  from Cons.prems have no: "\<not> startsWith (c # x) p" and rest: "splitAtFirst p x = None"
    by (auto split: if_splits)
  have "\<not> startsWith ((c # x) @ c0 # s) p"
  proof
    assume sw: "startsWith ((c # x) @ c0 # s) p"
    from startsWith_length [OF sw c0] have "length p \<le> length (c # x)" .
    with sw have "startsWith (c # x) p" by (rule startsWith_shorter)
    with no show False ..
  qed
  then have "\<not> startsWith (c # x @ c0 # s) p" by simp
  with Cons.IH [OF rest] show ?case
    by (cases "splitAtFirst p (c0 # s)") auto
qed

lemma title_skipped:
  assumes "\<not> occursIn (CHR ''$'' # p) t" and "CHR ''<'' \<notin> set p"
  shows "splitAtFirst (CHR ''$'' # p) (templateHead @ t @ templateAfterTitle @ s)
       = map_option (\<lambda>(pre, post). (templateHead @ t @ templateAfterTitle @ pre, post))
           (splitAtFirst (CHR ''$'' # p) s)"
proof -
  define l where "l = tl templateAfterTitle"
  have at: "templateAfterTitle = CHR ''<'' # l"
    by (simp add: l_def templateAfterTitle_def)
  have l: "CHR ''$'' \<notin> set (CHR ''<'' # l)"
    using template_plain(2) by (simp add: at)
  have absent: "splitAtFirst (CHR ''$'' # p) t = None"
    using assms(1) unfolding occursIn_def by blast
  have c0: "CHR ''<'' \<notin> set (CHR ''$'' # p)"
    using assms(2) by simp
  have "splitAtFirst (CHR ''$'' # p) (templateHead @ t @ CHR ''<'' # l @ s)
      = map_option (\<lambda>(pre, post). (templateHead @ pre, post))
          (splitAtFirst (CHR ''$'' # p) (t @ CHR ''<'' # l @ s))"
    using template_plain(1) by (rule splitAtFirst_skip)
  moreover have "splitAtFirst (CHR ''$'' # p) (t @ CHR ''<'' # l @ s)
      = map_option (\<lambda>(pre, post). (t @ pre, post))
          (splitAtFirst (CHR ''$'' # p) (CHR ''<'' # l @ s))"
    using absent c0 by (rule splitAtFirst_absent)
  moreover have "splitAtFirst (CHR ''$'' # p) ((CHR ''<'' # l) @ s)
      = map_option (\<lambda>(pre, post). ((CHR ''<'' # l) @ pre, post))
          (splitAtFirst (CHR ''$'' # p) s)"
    using l by (rule splitAtFirst_skip)
  ultimately show ?thesis
    by (cases "splitAtFirst (CHR ''$'' # p) s") (auto simp: at)
qed

lemma replace_title:
  "replaceString DEFAULT_HTML_TEMPLATE ''${title}'' title
    = templateHead @ insertedTitle title @ templateAfterTitle @ mermaidLine
      @ templateBeforeStylesheet @ ''${stylesheet}'' @ templateAfterStylesheet
      @ ''${body}'' @ templateTail"
proof -
  have "splitAtFirst ''${title}'' DEFAULT_HTML_TEMPLATE
      = Some (templateHead, templateAfterTitle @ mermaidLine @ templateBeforeStylesheet
          @ ''${stylesheet}'' @ templateAfterStylesheet @ ''${body}'' @ templateTail)"
    unfolding DEFAULT_HTML_TEMPLATE_def
    using template_plain(1) by (rule splitAtFirst_found)
  then show ?thesis
    by (simp add: replaceString_def insertedTitle_def)
qed

lemma replace_body:
  assumes "\<not> occursIn ''${body}'' t"
  shows "replaceString
      (templateHead @ t @ templateAfterTitle @ mermaidLine @ templateBeforeStylesheet
       @ ''${stylesheet}'' @ templateAfterStylesheet @ ''${body}'' @ templateTail)
      ''${body}'' html
    = templateHead @ t @ templateAfterTitle @ mermaidLine @ templateBeforeStylesheet
      @ ''${stylesheet}'' @ templateAfterStylesheet
      @ getSubstitution ''${body}''
          (templateHead @ t @ templateAfterTitle @ mermaidLine @ templateBeforeStylesheet
           @ ''${stylesheet}'' @ templateAfterStylesheet)
          templateTail html
      @ templateTail"
proof -
  have f: "splitAtFirst ''${body}'' (templateAfterStylesheet @ ''${body}'' @ templateTail)
      = Some (templateAfterStylesheet, templateTail)"
    using template_plain(4) by (rule splitAtFirst_found)
  have t: "splitAtFirst ''${body}''
      (templateHead @ t @ templateAfterTitle @ mermaidLine @ templateBeforeStylesheet
       @ ''${stylesheet}'' @ templateAfterStylesheet @ ''${body}'' @ templateTail)
    = map_option (\<lambda>(pre, post). (templateHead @ t @ templateAfterTitle @ pre, post))
        (splitAtFirst ''${body}'' (mermaidLine @ templateBeforeStylesheet
       @ ''${stylesheet}'' @ templateAfterStylesheet @ ''${body}'' @ templateTail))"
    using assms by (intro title_skipped) simp_all
  have "splitAtFirst ''${body}''
      (templateHead @ t @ templateAfterTitle @ mermaidLine @ templateBeforeStylesheet
       @ ''${stylesheet}'' @ templateAfterStylesheet @ ''${body}'' @ templateTail)
    = Some (templateHead @ t @ templateAfterTitle @ mermaidLine @ templateBeforeStylesheet
       @ ''${stylesheet}'' @ templateAfterStylesheet, templateTail)"
    by (simp only: t mermaidLine_skipped [of "''${body}''", simplified]
        splitAtFirst_skip [OF template_plain(3)] stylesheet_skipped f) simp
  then show ?thesis
    by (simp add: replaceString_def)
qed

lemma replace_stylesheet:
  assumes "\<not> occursIn ''${stylesheet}'' t"
  shows "replaceString
      (templateHead @ t @ templateAfterTitle @ mermaidLine @ templateBeforeStylesheet
       @ ''${stylesheet}'' @ y)
      ''${stylesheet}'' styleSheet
    = templateHead @ t @ templateAfterTitle @ mermaidLine @ templateBeforeStylesheet
      @ getSubstitution ''${stylesheet}''
          (templateHead @ t @ templateAfterTitle @ mermaidLine @ templateBeforeStylesheet)
          y styleSheet
      @ y"
proof -
  have f: "splitAtFirst ''${stylesheet}'' (templateBeforeStylesheet @ ''${stylesheet}'' @ y)
      = Some (templateBeforeStylesheet, y)"
    using template_plain(3) by (rule splitAtFirst_found)
  have t: "splitAtFirst ''${stylesheet}''
      (templateHead @ t @ templateAfterTitle @ mermaidLine @ templateBeforeStylesheet
       @ ''${stylesheet}'' @ y)
    = map_option (\<lambda>(pre, post). (templateHead @ t @ templateAfterTitle @ pre, post))
        (splitAtFirst ''${stylesheet}'' (mermaidLine @ templateBeforeStylesheet
       @ ''${stylesheet}'' @ y))"
    using assms by (intro title_skipped) simp_all
  have "splitAtFirst ''${stylesheet}''
      (templateHead @ t @ templateAfterTitle @ mermaidLine @ templateBeforeStylesheet
       @ ''${stylesheet}'' @ y)
    = Some (templateHead @ t @ templateAfterTitle @ mermaidLine @ templateBeforeStylesheet, y)"
    by (simp only: t mermaidLine_skipped [of "''${stylesheet}''", simplified] f) simp
  then show ?thesis
    by (simp add: replaceString_def)
qed

lemma expandHtmlTemplate_closed:
  assumes "\<not> occursIn ''${body}'' (insertedTitle title)"
    and "\<not> occursIn ''${stylesheet}'' (insertedTitle title)"
  shows "expandHtmlTemplate styleSheet html title
        = templateHead @ insertedTitle title @ templateAfterTitle @ mermaidLine
          @ templateBeforeStylesheet @ insertedStylesheet styleSheet html title
          @ templateAfterStylesheet @ insertedBody html title @ templateTail"
proof -
  have "replaceString
      (templateHead @ insertedTitle title @ templateAfterTitle @ mermaidLine
       @ templateBeforeStylesheet @ ''${stylesheet}''
       @ (templateAfterStylesheet @ insertedBody html title @ templateTail))
      ''${stylesheet}'' styleSheet
    = templateHead @ insertedTitle title @ templateAfterTitle @ mermaidLine
      @ templateBeforeStylesheet @ insertedStylesheet styleSheet html title
      @ (templateAfterStylesheet @ insertedBody html title @ templateTail)"
    unfolding insertedStylesheet_def using assms(2) by (rule replace_stylesheet)
  then show ?thesis
    unfolding expandHtmlTemplate_def replace_title replace_body [OF assms(1)]
    by (simp add: insertedBody_def)
qed

lemma body_title_replaced:
  "replaceString DEFAULT_HTML_TEMPLATE ''${title}'' ''${body}''
    = templateHead @ ''${body}'' @ templateAfterTitle @ mermaidLine
      @ templateBeforeStylesheet @ ''${stylesheet}'' @ templateAfterStylesheet
      @ ''${body}'' @ templateTail"
  by (simp add: replace_title insertedTitle_def)

lemma body_title_body:
  "replaceString
     (templateHead @ ''${body}'' @ templateAfterTitle @ mermaidLine
      @ templateBeforeStylesheet @ ''${stylesheet}'' @ templateAfterStylesheet
      @ ''${body}'' @ templateTail) ''${body}'' ''<div>x</div>''
    = templateHead @ ''<div>x</div>'' @ templateAfterTitle @ mermaidLine
      @ templateBeforeStylesheet @ ''${stylesheet}'' @ templateAfterStylesheet
      @ ''${body}'' @ templateTail"
proof -
  have "splitAtFirst ''${body}''
     (templateHead @ ''${body}'' @ (templateAfterTitle @ mermaidLine
      @ templateBeforeStylesheet @ ''${stylesheet}'' @ templateAfterStylesheet
      @ ''${body}'' @ templateTail))
    = Some (templateHead, templateAfterTitle @ mermaidLine
      @ templateBeforeStylesheet @ ''${stylesheet}'' @ templateAfterStylesheet
      @ ''${body}'' @ templateTail)"
    using template_plain(1) by (rule splitAtFirst_found)
  then show ?thesis
    by (simp add: replaceString_def)
qed

lemma body_title_stylesheet:
  "replaceString
     (templateHead @ ''<div>x</div>'' @ templateAfterTitle @ mermaidLine
      @ templateBeforeStylesheet @ ''${stylesheet}'' @ templateAfterStylesheet
      @ ''${body}'' @ templateTail) ''${stylesheet}'' ''p{}''
    = templateHead @ ''<div>x</div>'' @ templateAfterTitle @ mermaidLine
      @ templateBeforeStylesheet @ ''p{}'' @ templateAfterStylesheet
      @ ''${body}'' @ templateTail"
proof -
  have "\<not> occursIn ''${stylesheet}'' ''<div>x</div>''"
    by (simp add: occursIn_def)
  from replace_stylesheet [OF this] show ?thesis
    by simp
qed

text \<open>
  Claim C10, as amended. For every body, title and style sheet, the result of
  \<open>expandHtmlTemplate\<close> still holds the line of the template with the placeholder
  \<open>${MERMAID_STYLESHEET}\<close>, right after the opening \<open>style\<close> tag: no call of
  \<open>replace\<close> touches it. Each call replaces the first occurrence of its placeholder
  in the document as it is at that call. When the text that takes the place of
  \<open>${title}\<close> (the title with its dollar patterns expanded) contains neither
  \<open>${body}\<close> nor \<open>${stylesheet}\<close>, these first occurrences are the three
  placeholders of the template, each replaced once by its text, and a text such as
  \<open>${stylesheet}\<close> inside the body stays as it is.
\<close>

theorem expandHtmlTemplate_first_occurrences:
  "(\<exists>pre post. expandHtmlTemplate styleSheet html title = pre @ mermaidLine @ post)
   \<and> (\<not> occursIn ''${body}'' (insertedTitle title)
        \<and> \<not> occursIn ''${stylesheet}'' (insertedTitle title) \<longrightarrow>
        expandHtmlTemplate styleSheet html title
        = templateHead @ insertedTitle title @ templateAfterTitle @ mermaidLine
          @ templateBeforeStylesheet @ insertedStylesheet styleSheet html title
          @ templateAfterStylesheet @ insertedBody html title @ templateTail)"
  using expandHtmlTemplate_keeps_mermaidLine [of styleSheet html title]
    expandHtmlTemplate_closed [of title styleSheet html]
  by blast

theorem expandHtmlTemplate_first_occurrences_witness:
  "expandHtmlTemplate ''p{}'' ''<div>x ${stylesheet}</div>'' ''Cost $5''
   = templateHead @ ''Cost $5'' @ templateAfterTitle @ mermaidLine @ templateBeforeStylesheet
     @ ''p{}'' @ templateAfterStylesheet @ ''<div>x ${stylesheet}</div>'' @ templateTail"
proof -
  have t: "insertedTitle ''Cost $5'' = ''Cost $5''"
    by (simp add: insertedTitle_def)
  have o: "\<not> occursIn ''${body}'' ''Cost $5''" "\<not> occursIn ''${stylesheet}'' ''Cost $5''"
    by (simp_all add: occursIn_def)
  have b: "insertedBody ''<div>x ${stylesheet}</div>'' ''Cost $5'' = ''<div>x ${stylesheet}</div>''"
    by (simp add: insertedBody_def)
  have s: "insertedStylesheet ''p{}'' ''<div>x ${stylesheet}</div>'' ''Cost $5'' = ''p{}''"
    by (simp add: insertedStylesheet_def getSubstitution_plain)
  from expandHtmlTemplate_first_occurrences
    [of "''p{}''" "''<div>x ${stylesheet}</div>''" "''Cost $5''"]
  show ?thesis by (simp add: t o b s)
qed

text \<open>
  Claim C10 as stated fails for the title \<open>${body}\<close> (a note named
  \<open>${body}.md\<close>): the first call puts the title in place of \<open>${title}\<close>, the
  second call finds this text as the first \<open>${body}\<close> and puts the body into the
  \<open>title\<close> element, and the placeholder \<open>${body}\<close> of the template is never
  replaced: it stands in the \<open>body\<close> element of the result.
\<close>

theorem expandHtmlTemplate_title_counterexample:
  "expandHtmlTemplate ''p{}'' ''<div>x</div>'' ''${body}''
   = templateHead @ ''<div>x</div>'' @ templateAfterTitle @ mermaidLine
     @ templateBeforeStylesheet @ ''p{}'' @ templateAfterStylesheet
     @ ''${body}'' @ templateTail"
  unfolding expandHtmlTemplate_def
  by (simp only: body_title_replaced body_title_body body_title_stylesheet)
section \<open>The list normalizer\<close>

text \<open>
  Claim C9. \<open>preprocessMarkdownList\<close> maps the two lines \<open>- item one\<close> and
  \<open>  : continuation text\<close> to the single line \<open>- item one: continuation text\<close>:
  the first pattern matches both lines and joins them, and the other three patterns
  find nothing to change.
\<close>

theorem preprocessMarkdownList_example:
  "preprocessMarkdownList (''- item one'' @ [CHR 0x0A] @ ''  : continuation text'')
   = ''- item one: continuation text''"
  by code_simp

end
